theory Spec2Isabelle
  imports Complex_Main "HOL-Library.Multiset"
begin

section \<open>Values of the Python run time\<close>

text \<open>
  An exception raised by a collaborator (the IMAP session, the chat completion client, the
  store client) or by the run time is identified by the text \<open>str(e)\<close> gives for it: the
  program does nothing else with an exception it catches.
\<close>

type_synonym exn = string

text \<open>
  A \<open>datetime\<close>: the naive fields (year to microsecond) as the count of microseconds
  since 0001-01-01T00:00:00, and \<open>tzinfo\<close> as the UTC offset in microseconds, \<open>None\<close>
  for a naive value. \<open>replace(tzinfo=...)\<close> keeps the naive fields; an aware value denotes
  the instant \<open>wall - offset\<close>.
\<close>

record datetime =
  wall :: int
  tzinfo :: "int option"

definition utc :: "int option" where
  "utc = Some 0"

definition replace_tzinfo :: "datetime \<Rightarrow> int option \<Rightarrow> datetime" where
  "replace_tzinfo d tz = d\<lparr>tzinfo := tz\<rparr>"

definition timedelta_days :: "int \<Rightarrow> int" where
  "timedelta_days n = n * 86400000000"

definition datetime_max :: int where
  "datetime_max = 315537897600000000"

text \<open>\<open>d - delta\<close>: OverflowError outside the years 1 to 9999.\<close>

definition datetime_sub :: "datetime \<Rightarrow> int \<Rightarrow> exn + datetime" where
  "datetime_sub d delta =
     (if wall d - delta < 0 \<or> datetime_max \<le> wall d - delta
      then Inl ''date value out of range''
      else Inr (d\<lparr>wall := wall d - delta\<rparr>))"

text \<open>\<open>d.date()\<close>: the calendar day of the naive fields, as a day count.\<close>

definition date_of :: "datetime \<Rightarrow> int" where
  "date_of d = wall d div timedelta_days 1"

text \<open>
  \<open>a >= b\<close>: two naive values compare by their fields, two aware values by their instants,
  and a naive value against an aware one raises TypeError.
\<close>

definition datetime_ge :: "datetime \<Rightarrow> datetime \<Rightarrow> exn + bool" where
  "datetime_ge a b =
     (case (tzinfo a, tzinfo b) of
        (None, None) \<Rightarrow> Inr (wall b \<le> wall a)
      | (Some oa, Some ob) \<Rightarrow> Inr (wall b - ob \<le> wall a - oa)
      | _ \<Rightarrow> Inl ''can't compare offset-naive and offset-aware datetimes'')"

text \<open>The instant an aware value denotes, in microseconds of UTC.\<close>

definition instant :: "datetime \<Rightarrow> int option" where
  "instant d = (case tzinfo d of None \<Rightarrow> None | Some off \<Rightarrow> Some (wall d - off))"

text \<open>\<open>sep.join(xs)\<close>\<close>

fun join :: "string \<Rightarrow> string list \<Rightarrow> string" where
  "join sep [] = []"
| "join sep [x] = x"
| "join sep (x # y # ys) = x @ sep @ join sep (y # ys)"

text \<open>\<open>xs[0]\<close>\<close>

definition subscript0 :: "'a list \<Rightarrow> exn + 'a" where
  "subscript0 xs = (case xs of [] \<Rightarrow> Inl ''list index out of range'' | x # _ \<Rightarrow> Inr x)"

section \<open>Records, requests and exceptions of the application\<close>

text \<open>
  The dictionary \<open>email_content\<close>. \<open>date\<close> and \<open>extracted_at\<close> hold the \<open>datetime\<close> whose
  \<open>isoformat()\<close> text the program stores. \<open>summary\<close> is \<open>None\<close> while the key is absent,
  \<open>Some None\<close> when its value is Python's \<open>None\<close>, and \<open>Some (Some s)\<close> for the string \<open>s\<close>.
\<close>

record email_content =
  subject :: string
  from_address :: string
  to_address :: string
  date :: datetime
  text_body :: string
  extracted_at :: datetime
  summary :: "string option option"

record EmailRequest =
  req_email_address :: string
  req_password :: string
  req_sender_addresses :: "string list"

datatype detail = Detail_dict "(string \<times> string) list" | Detail_str string

datatype exc = Exception exn | HTTPException nat detail

text \<open>
  An f-string is kept as its parts, in order: the literal text and the interpolated
  strings as \<open>Txt\<close>, and an interpolated value of another type under the conversion the
  program applies to it (\<open>str\<close> of a number, of a \<open>datetime\<close>, of an exception;
  \<open>isoformat()\<close> of a \<open>datetime\<close>).
\<close>

datatype part =
    Txt string
  | Num nat
  | Str_datetime datetime
  | Isoformat datetime
  | Str_exc exc

section \<open>Collaborators and their effects\<close>

text \<open>
  The level of a log record. The trace keeps every call of the logger with its level;
  \<open>logging.basicConfig(level=logging.INFO)\<close> writes out those of level \<open>INFO\<close> and above.
\<close>

datatype level = DEBUG | INFO | WARNING | ERROR

record chat_request =
  messages :: "(string \<times> part list) list"
  model :: string
  temperature :: rat
  max_tokens :: nat

text \<open>
  A chat completion: \<open>message.content\<close> of each of its choices, an optional string
  (\<open>None\<close> is Python's \<open>None\<close>).
\<close>

record completion =
  choices :: "string option list"

text \<open>
  Every call that leaves the process is written to a trace, in program order: a log
  record, a reading of the clock, a call of the IMAP session, of the chat completion
  client or of the store client.
\<close>

datatype effect =
    Log level "part list"
  | Datetime_now
  | Mailbox_login string string string string
  | Mailbox_fetch string int
  | Mailbox_logout
  | Groq_create chat_request
  | Supabase_insert email_content
  | Supabase_select string

text \<open>
  A computation: its outcome, an exception raised (\<open>Inl\<close>) or a value returned
  (\<open>Inr\<close>), and the trace of its effects.
\<close>

type_synonym ('e, 'a) io = "('e + 'a) \<times> effect list"

definition io_return :: "'a \<Rightarrow> ('e, 'a) io" where
  "io_return v = (Inr v, [])"

definition io_raise :: "'e \<Rightarrow> ('e, 'a) io" where
  "io_raise e = (Inl e, [])"

definition io_bind :: "('e, 'a) io \<Rightarrow> ('a \<Rightarrow> ('e, 'b) io) \<Rightarrow> ('e, 'b) io" where
  "io_bind m f =
     (case m of
        (Inl e, t) \<Rightarrow> (Inl e, t)
      | (Inr v, t) \<Rightarrow> (case f v of (r, t') \<Rightarrow> (r, t @ t')))"

text \<open>\<open>try: m  except Exception as e: h e\<close>\<close>

definition io_try :: "('e, 'a) io \<Rightarrow> ('e \<Rightarrow> ('f, 'a) io) \<Rightarrow> ('f, 'a) io" where
  "io_try m h =
     (case m of
        (Inl e, t) \<Rightarrow> (case h e of (r, t') \<Rightarrow> (r, t @ t'))
      | (Inr v, t) \<Rightarrow> (Inr v, t))"

text \<open>A call of a collaborator: the effect is recorded, the answer is the outcome.\<close>

definition io_call :: "effect \<Rightarrow> 'e + 'a \<Rightarrow> ('e, 'a) io" where
  "io_call eff answer = (answer, [eff])"

text \<open>An operation of the run time that has no effect outside the process.\<close>

definition io_pure :: "'e + 'a \<Rightarrow> ('e, 'a) io" where
  "io_pure answer = (answer, [])"

definition logger :: "level \<Rightarrow> part list \<Rightarrow> ('e, unit) io" where
  "logger lvl parts = (Inr (), [Log lvl parts])"

section \<open>The summarizer\<close>

text \<open>The request \<open>summarize_single_email\<close> sends for a record.\<close>

definition summary_request :: "email_content \<Rightarrow> chat_request" where
  "summary_request email_content =
     (let email_text =
            [Txt ''Subject: '', Txt (subject email_content),
             Txt (CHR 0x0A # ''From: ''), Txt (from_address email_content),
             Txt (CHR 0x0A # ''Date: ''), Isoformat (date email_content),
             Txt (CHR 0x0A # ''Content: ''), Txt (take 2000 (text_body email_content)),
             Txt ''...'']
      in \<lparr>messages =
            [(''system'',
              [Txt (''You are a helpful assistant that summarizes emails. '' @
                    ''Provide a concise summary of the key points and any important action items. '' @
                    ''Keep the summary under 200 words.'')]),
             (''user'',
              Txt (''Please provide a brief summary of this email:'' @ [CHR 0x0A]) # email_text)],
          model = ''mixtral-8x7b-32768'',
          temperature = 1 / 2,
          max_tokens = 200\<rparr>)"

text \<open>
  \<open>groq_create\<close> is the answer of \<open>groq_client.chat.completions.create\<close> to the call: a
  completion, or the exception it raises (API error, timeout). The content of the first
  choice is returned as it is, \<open>None\<close> included.
\<close>

definition summarize_single_email ::
  "(chat_request \<Rightarrow> exn + completion) \<Rightarrow> email_content \<Rightarrow> (exn, string option) io" where
  "summarize_single_email groq_create email_content =
     io_try
       (io_bind (logger INFO [Txt ''Generating summary for email: '',
                              Txt (take 30 (subject email_content)), Txt ''...''])
        (\<lambda>_. io_bind (io_call (Groq_create (summary_request email_content))
                         (groq_create (summary_request email_content)))
        (\<lambda>chat_completion. io_bind (io_pure (subscript0 (choices chat_completion)))
        (\<lambda>content. io_return content))))
       (\<lambda>e. io_bind (logger ERROR [Txt ''Failed to generate summary for email: '', Txt e])
          (\<lambda>_. io_return (Some ''Failed to generate summary'')))"

section \<open>The mailbox extractor\<close>

text \<open>
  A message of the IMAP session. Each attribute is computed from the raw message when
  it is read, and reading it may raise (a malformed header or body).
\<close>

record mail_message =
  m_subject :: "exn + string"
  m_from :: "exn + string"
  m_to :: "exn + string list"
  m_date :: "exn + datetime"
  m_text :: "exn + string"
  m_html :: "exn + string"

text \<open>
  A message as the session yields it, with the answers the clock and the chat
  completion client give while this message is processed.
\<close>

record fetched =
  message :: mail_message
  now_at :: int
  groq_at :: "chat_request \<Rightarrow> exn + completion"

text \<open>
  The world of one request: the clock when the request starts; the answer of the IMAP
  server to the login (\<open>None\<close>: accepted); for the \<open>k\<close>-th search of the session, the
  messages the generator yields and the exception that ends it, if any; the answer to the
  logout; for the \<open>k\<close>-th insert, whether the store raises.
\<close>

record world =
  now :: int
  mailbox_login :: "string \<Rightarrow> string \<Rightarrow> string \<Rightarrow> string \<Rightarrow> exn option"
  mailbox_fetch :: "nat \<Rightarrow> string \<Rightarrow> int \<Rightarrow> fetched list \<times> exn option"
  mailbox_logout :: "exn option"
  supabase_insert :: "nat \<Rightarrow> email_content \<Rightarrow> exn option"

text \<open>\<open>datetime.now(utc)\<close>, the clock reading \<open>t\<close>.\<close>

definition datetime_now :: "int \<Rightarrow> ('e, datetime) io" where
  "datetime_now t = io_call Datetime_now (Inr \<lparr>wall = t, tzinfo = utc\<rparr>)"

text \<open>\<open>msg.text or msg.html\<close>: the second attribute is read only when the first is empty.\<close>

definition text_or_html :: "mail_message \<Rightarrow> exn + string" where
  "text_or_html msg =
     (case m_text msg of
        Inl e \<Rightarrow> Inl e
      | Inr t \<Rightarrow> if t \<noteq> [] then Inr t else m_html msg)"

text \<open>The \<open>try\<close> block of the loop over the messages: \<open>None\<close> when nothing is appended.\<close>

definition process_message_try :: "datetime \<Rightarrow> fetched \<Rightarrow> (exn, email_content option) io" where
  "process_message_try date_since f =
     (let msg = message f in
      io_bind (io_pure (m_date msg))
      (\<lambda>d. let msg_date = replace_tzinfo d utc in
      io_bind (logger DEBUG [Txt ''Message date: '', Str_datetime msg_date,
                             Txt '', Comparing with: '', Str_datetime date_since])
      (\<lambda>_. io_bind (io_pure (datetime_ge msg_date date_since))
      (\<lambda>recent.
        if recent then
          io_bind (io_pure (m_subject msg))
          (\<lambda>msg_subject. io_bind (io_pure (m_from msg))
          (\<lambda>msg_from. io_bind (io_pure (m_to msg))
          (\<lambda>msg_to. io_bind (io_pure (text_or_html msg))
          (\<lambda>msg_text. io_bind (datetime_now (now_at f))
          (\<lambda>now_utc.
            let email_content =
                  \<lparr>subject = msg_subject,
                   from_address = msg_from,
                   to_address = join '', '' msg_to,
                   date = msg_date,
                   text_body = msg_text,
                   extracted_at = now_utc,
                   summary = None\<rparr>
            in io_bind (summarize_single_email (groq_at f) email_content)
               (\<lambda>s. io_bind (logger INFO [Txt ''Processed email: '',
                                           Txt (take 30 msg_subject), Txt ''...''])
               (\<lambda>_. io_return (Some (email_content\<lparr>summary := Some s\<rparr>)))))))))
        else
          io_bind (logger DEBUG [Txt ''Skipping email from '', Str_datetime msg_date,
                                 Txt '' as it's older than '', Str_datetime date_since])
          (\<lambda>_. io_return None)))))"

text \<open>The body of the loop over the messages: the \<open>try\<close> block and its handler.\<close>

definition process_message :: "datetime \<Rightarrow> fetched \<Rightarrow> (exn, email_content option) io" where
  "process_message date_since f =
     io_try (process_message_try date_since f)
       (\<lambda>e. io_bind (logger ERROR [Txt ''Error processing individual email: '', Txt e])
          (\<lambda>_. io_return None))"

text \<open>\<open>for msg in messages\<close>, over the messages the generator yields.\<close>

fun process_messages :: "datetime \<Rightarrow> fetched list \<Rightarrow> (exn, email_content list) io" where
  "process_messages date_since [] = io_return []"
| "process_messages date_since (f # fs) =
     io_bind (process_message date_since f)
     (\<lambda>r. io_bind (process_messages date_since fs)
     (\<lambda>rs. io_return ((case r of None \<Rightarrow> [] | Some c \<Rightarrow> [c]) @ rs)))"

text \<open>
  The body of the loop over the senders, for the \<open>k\<close>-th sender: the search, the loop over
  its messages, and the exception that ends the generator, if any.
\<close>

definition fetch_sender ::
  "world \<Rightarrow> datetime \<Rightarrow> nat \<Rightarrow> string \<Rightarrow> (exn, email_content list) io" where
  "fetch_sender w date_since k sender =
     io_bind (logger INFO [Txt ''Fetching emails from sender: '', Txt sender])
     (\<lambda>_. io_bind (io_call (Mailbox_fetch sender (date_of date_since)) (Inr ()))
     (\<lambda>_. io_bind (process_messages date_since
                     (fst (mailbox_fetch w k sender (date_of date_since))))
     (\<lambda>rs. case snd (mailbox_fetch w k sender (date_of date_since)) of
              None \<Rightarrow> io_return rs
            | Some e \<Rightarrow> io_raise e)))"

fun fetch_senders ::
  "world \<Rightarrow> datetime \<Rightarrow> nat \<Rightarrow> string list \<Rightarrow> (exn, email_content list) io" where
  "fetch_senders w date_since k [] = io_return []"
| "fetch_senders w date_since k (sender # senders) =
     io_bind (fetch_sender w date_since k sender)
     (\<lambda>rs. io_bind (fetch_senders w date_since (Suc k) senders)
     (\<lambda>rss. io_return (rs @ rss)))"

text \<open>
  \<open>with MailBox(host).login(user, password, initial_folder=folder) as mailbox: body\<close>:
  the session is logged out on every way out of the body; an exception of the logout
  replaces the outcome of the body.
\<close>

definition with_mailbox ::
  "world \<Rightarrow> string \<Rightarrow> string \<Rightarrow> string \<Rightarrow> string \<Rightarrow> (exn, 'a) io \<Rightarrow> (exn, 'a) io" where
  "with_mailbox w host user pw folder body =
     io_bind (io_call (Mailbox_login host user pw folder)
                (case mailbox_login w host user pw folder of
                   None \<Rightarrow> Inr ()
                 | Some e \<Rightarrow> Inl e))
     (\<lambda>_. case body of
             (r, t) \<Rightarrow>
               (case mailbox_logout w of
                  None \<Rightarrow> (r, t @ [Mailbox_logout])
                | Some e \<Rightarrow> (Inl e, t @ [Mailbox_logout])))"

definition extract_emails_from_inbox ::
  "world \<Rightarrow> string \<Rightarrow> string \<Rightarrow> string list \<Rightarrow> (exc, email_content list) io" where
  "extract_emails_from_inbox w email_address password sender_addresses =
     io_try
       (io_bind (logger INFO [Txt ''Attempting to connect to Gmail IMAP for: '',
                              Txt email_address])
        (\<lambda>_. io_bind (datetime_now (now w))
        (\<lambda>now_utc. io_bind (io_pure (datetime_sub now_utc (timedelta_days 1)))
        (\<lambda>date_since.
          io_bind (with_mailbox w ''imap.gmail.com'' email_address password ''INBOX''
                     (io_bind (logger INFO [Txt ''Successfully connected to Gmail''])
                      (\<lambda>_. fetch_senders w date_since 0 sender_addresses)))
          (\<lambda>email_data.
            io_bind (logger INFO [Txt ''Successfully extracted '', Num (length email_data),
                                   Txt '' emails''])
            (\<lambda>_. io_return email_data))))))
       (\<lambda>e. let error_msg = e in
          io_bind (logger ERROR [Txt ''Failed to fetch emails: '', Txt error_msg])
          (\<lambda>_. io_raise (HTTPException 500
                   (Detail_dict [(''message'', ''Failed to fetch emails''),
                                 (''error'', error_msg),
                                 (''email'', email_address)]))))"

section \<open>The endpoints\<close>

text \<open>A value of a response dictionary.\<close>

datatype jvalue =
    JStr string
  | JInt nat
  | JList "string list"
  | JRows "email_content list"

text \<open>
  The loop that stores the extracted records, from the \<open>k\<close>-th insert of the request on:
  \<open>stored_count\<close> is returned.
\<close>

fun store_emails :: "world \<Rightarrow> nat \<Rightarrow> email_content list \<Rightarrow> nat \<Rightarrow> (exc, nat) io" where
  "store_emails w k [] stored_count = io_return stored_count"
| "store_emails w k (email_data # rest) stored_count =
     io_bind
       (io_try
          (io_bind (io_call (Supabase_insert email_data)
                      (case supabase_insert w k email_data of
                         None \<Rightarrow> Inr ()
                       | Some e \<Rightarrow> Inl e))
           (\<lambda>_. io_bind (logger INFO [Txt ''Stored email: '',
                                       Txt (take 30 (subject email_data)), Txt ''...''])
           (\<lambda>_. io_return (stored_count + 1))))
          (\<lambda>e. io_bind (logger ERROR [Txt ''Failed to store email: '', Txt e])
             (\<lambda>_. io_return stored_count)))
       (\<lambda>stored_count. store_emails w (Suc k) rest stored_count)"

definition extract_from_email :: "world \<Rightarrow> EmailRequest \<Rightarrow> (exc, (string \<times> jvalue) list) io" where
  "extract_from_email w request =
     io_try
       (io_bind (logger INFO [Txt ''Starting email extraction for: '',
                              Txt (req_email_address request)])
        (\<lambda>_. io_bind (extract_emails_from_inbox w (req_email_address request)
                         (req_password request) (req_sender_addresses request))
        (\<lambda>extracted_emails.
          if extracted_emails = [] then
            io_bind (logger WARNING
                       [Txt ''No emails found in the last 24 hours from specified senders''])
            (\<lambda>_. io_return
                    [(''message'',
                      JStr ''No emails found in the last 24 hours from specified senders''),
                     (''senders_processed'', JList (req_sender_addresses request))])
          else
            io_bind (logger INFO [Txt ''Storing emails in Supabase''])
            (\<lambda>_. io_bind (store_emails w 0 extracted_emails 0)
            (\<lambda>stored_count. io_return
                    [(''message'', JStr ''Emails extracted and stored successfully''),
                     (''emails_found'', JInt (length extracted_emails)),
                     (''emails_stored'', JInt stored_count),
                     (''senders_processed'', JList (req_sender_addresses request))])))))
       (\<lambda>e. io_bind (logger ERROR [Txt ''Error in extract_from_email: '', Str_exc e])
          (\<lambda>_. case e of
                  HTTPException status_code d \<Rightarrow> io_raise e
                | Exception s \<Rightarrow> io_raise (HTTPException 500 (Detail_str s))))"

text \<open>
  The store when \<open>/emails\<close> is requested: the rows of the table \<open>emails\<close> (the \<open>id\<close>
  column the store generates is left out), and the exception the query raises, if any.
\<close>

record store =
  emails_table :: "email_content list"
  select_raises :: "exn option"

text \<open>
  The value of a \<open>timestamp with time zone\<close> column: an instant. Every row this program
  writes carries an offset; a text without one is read in the time zone of the session, UTC.
\<close>

definition timestamptz :: "datetime \<Rightarrow> int" where
  "timestamptz d = wall d - (case tzinfo d of None \<Rightarrow> 0 | Some off \<Rightarrow> off)"

text \<open>
  Modelled from the spec: the store is a remote service and no code of it is in the
  repository; the program asks it for \<open>select("*").order('date.desc')\<close>, which the spec
  gives as "select all ordered by date descending".
\<close>

definition select_order_date_desc :: "email_content list \<Rightarrow> email_content list" where
  "select_order_date_desc rows = rev (sort_key (\<lambda>r. timestamptz (date r)) rows)"

definition get_emails :: "store \<Rightarrow> (exc, (string \<times> jvalue) list) io" where
  "get_emails st =
     io_try
       (io_bind (logger INFO [Txt ''Retrieving emails from Supabase''])
        (\<lambda>_. io_bind (io_call (Supabase_select ''date.desc'')
                         (case select_raises st of
                            None \<Rightarrow> Inr (select_order_date_desc (emails_table st))
                          | Some e \<Rightarrow> Inl e))
        (\<lambda>emails.
          if emails = [] then
            io_bind (logger WARNING [Txt ''No emails found in database''])
            (\<lambda>_. io_return [(''message'', JStr ''No emails found in database'')])
          else
            io_return [(''emails'', JRows emails), (''total_count'', JInt (length emails))])))
       (\<lambda>e. io_bind (logger ERROR [Txt ''Error in get_emails: '', Txt e])
          (\<lambda>_. io_raise (HTTPException 500 (Detail_str e))))"

section \<open>Reading a trace\<close>

fun logs_of :: "effect list \<Rightarrow> (level \<times> part list) list" where
  "logs_of [] = []"
| "logs_of (Log lvl parts # t) = (lvl, parts) # logs_of t"
| "logs_of (_ # t) = logs_of t"

fun inserts_of :: "effect list \<Rightarrow> email_content list" where
  "inserts_of [] = []"
| "inserts_of (Supabase_insert r # t) = r # inserts_of t"
| "inserts_of (_ # t) = inserts_of t"

fun fetches_of :: "effect list \<Rightarrow> (string \<times> int) list" where
  "fetches_of [] = []"
| "fetches_of (Mailbox_fetch sender day # t) = (sender, day) # fetches_of t"
| "fetches_of (_ # t) = fetches_of t"

section \<open>Notions the properties are stated with\<close>

text \<open>The records the loop over the messages \<open>fs\<close> appends.\<close>

definition kept :: "datetime \<Rightarrow> fetched list \<Rightarrow> email_content list" where
  "kept d fs =
     List.map_filter (\<lambda>f. case fst (process_message d f) of Inl e \<Rightarrow> None | Inr r \<Rightarrow> r) fs"

text \<open>
  The \<open>try\<close> block of \<open>summarize_single_email\<close> raises: the client raises, or the
  completion has no choice.
\<close>

definition summarization_fails :: "(chat_request \<Rightarrow> exn + completion) \<Rightarrow> email_content \<Rightarrow> bool" where
  "summarization_fails g c =
     (case g (summary_request c) of Inl e \<Rightarrow> True | Inr cc \<Rightarrow> choices cc = [])"

text \<open>
  Two worlds that give the same answers, but for what \<open>R\<close> leaves open in the messages
  a search yields.
\<close>

definition worlds_agree :: "(fetched \<Rightarrow> fetched \<Rightarrow> bool) \<Rightarrow> world \<Rightarrow> world \<Rightarrow> bool" where
  "worlds_agree R w w' \<longleftrightarrow>
     now w = now w' \<and> mailbox_login w = mailbox_login w' \<and> mailbox_logout w = mailbox_logout w' \<and>
     (\<forall>k s day. snd (mailbox_fetch w k s day) = snd (mailbox_fetch w' k s day) \<and>
        list_all2 R (fst (mailbox_fetch w k s day)) (fst (mailbox_fetch w' k s day)))"

text \<open>The effects of processing one message: a log record, the clock, the chat client.\<close>

definition inner_effect :: "effect \<Rightarrow> bool" where
  "inner_effect e =
     (case e of Log lvl parts \<Rightarrow> True | Datetime_now \<Rightarrow> True | Groq_create r \<Rightarrow> True | _ \<Rightarrow> False)"

text \<open>The exception \<open>extract_emails_from_inbox\<close> raises for the exception \<open>e\<close> it caught.\<close>

definition fetch_failed :: "string \<Rightarrow> exn \<Rightarrow> exc" where
  "fetch_failed a e =
     HTTPException 500
       (Detail_dict [(''message'', ''Failed to fetch emails''), (''error'', e), (''email'', a)])"

text \<open>The world without the \<open>i\<close>-th message of the \<open>k\<close>-th search.\<close>

definition without_message :: "nat \<Rightarrow> nat \<Rightarrow> world \<Rightarrow> world" where
  "without_message k i w =
     w\<lparr>mailbox_fetch := \<lambda>k' sender day.
          if k' = k
          then (take i (fst (mailbox_fetch w k' sender day)) @
                  drop (Suc i) (fst (mailbox_fetch w k' sender day)),
                snd (mailbox_fetch w k' sender day))
          else mailbox_fetch w k' sender day\<rparr>"

section \<open>Sample inputs\<close>

text \<open>2026-11-04T12:00:00, and a number of hours, in microseconds.\<close>

definition noon :: int where
  "noon = 63929390400000000"

definition hours :: "int \<Rightarrow> int" where
  "hours n = n * 3600000000"

definition message_at :: "int \<Rightarrow> int option \<Rightarrow> string \<Rightarrow> mail_message" where
  "message_at t tz body =
     \<lparr>m_subject = Inr ''Hi'', m_from = Inr ''a@x.com'', m_to = Inr [''me@y.com''],
      m_date = Inr \<lparr>wall = t, tzinfo = tz\<rparr>, m_text = Inr body,
      m_html = Inr ''<p>hello</p>''\<rparr>"

definition groq_ok :: "chat_request \<Rightarrow> exn + completion" where
  "groq_ok request = Inr \<lparr>choices = [Some ''A greeting.'']\<rparr>"

definition groq_down :: "chat_request \<Rightarrow> exn + completion" where
  "groq_down request = Inl ''Connection error.''"

text \<open>The client answers with a completion whose first choice has no content.\<close>

definition groq_null :: "chat_request \<Rightarrow> exn + completion" where
  "groq_null request = Inr \<lparr>choices = [None]\<rparr>"

text \<open>A message sent two hours before noon, processed one second after noon.\<close>

definition fetched_recent :: fetched where
  "fetched_recent =
     \<lparr>message = message_at (noon - hours 2) utc ''hello'', now_at = noon + 1000000,
      groq_at = groq_ok\<rparr>"

definition record_recent :: email_content where
  "record_recent =
     \<lparr>subject = ''Hi'', from_address = ''a@x.com'', to_address = ''me@y.com'',
      date = \<lparr>wall = noon - hours 2, tzinfo = utc\<rparr>, text_body = ''hello'',
      extracted_at = \<lparr>wall = noon + 1000000, tzinfo = utc\<rparr>, summary = None\<rparr>"

text \<open>
  A world at noon whose server accepts the password \<open>secret\<close> and whose every search
  yields the messages \<open>fs\<close>.
\<close>

definition world_of :: "fetched list \<Rightarrow> world" where
  "world_of fs =
     \<lparr>now = noon,
      mailbox_login = (\<lambda>host user pw folder.
         if pw = ''secret'' then None
         else Some ''[AUTHENTICATIONFAILED] Invalid credentials (Failure)''),
      mailbox_fetch = (\<lambda>k sender day. (fs, None)),
      mailbox_logout = None,
      supabase_insert = (\<lambda>k r. None)\<rparr>"

text \<open>A message sent thirty hours before noon, on the calendar day of the cutoff.\<close>

definition fetched_old :: fetched where
  "fetched_old =
     \<lparr>message = message_at (noon - hours 30) utc ''old news'', now_at = noon + 2000000,
      groq_at = groq_ok\<rparr>"

text \<open>A message with no plain text body, sent one hour before noon.\<close>

definition fetched_html :: fetched where
  "fetched_html =
     \<lparr>message = message_at (noon - hours 1) utc [], now_at = noon + 3000000,
      groq_at = groq_ok\<rparr>"

definition record_html :: email_content where
  "record_html =
     \<lparr>subject = ''Hi'', from_address = ''a@x.com'', to_address = ''me@y.com'',
      date = \<lparr>wall = noon - hours 1, tzinfo = utc\<rparr>, text_body = ''<p>hello</p>'',
      extracted_at = \<lparr>wall = noon + 3000000, tzinfo = utc\<rparr>, summary = Some (Some ''A greeting.'')\<rparr>"

text \<open>A recent message whose body cannot be decoded.\<close>

definition fetched_broken :: fetched where
  "fetched_broken =
     \<lparr>message = (message_at (noon - hours 3) utc [])\<lparr>m_text := Inl ''unknown encoding: x-foo''\<rparr>,
      now_at = noon + 4000000, groq_at = groq_ok\<rparr>"

text \<open>
  The world of \<open>world_of\<close> whose store raises on the insert of a record dated two hours
  before noon.
\<close>

definition world_store_fails :: "fetched list \<Rightarrow> world" where
  "world_store_fails fs =
     (world_of fs)\<lparr>supabase_insert := \<lambda>k r.
        if wall (date r) = noon - hours 2 then Some ''duplicate key value'' else None\<rparr>"

text \<open>
  A message whose Date header reads 2026-11-03 15:00:00 +0500: it was sent at 10:00 UTC,
  26 hours before noon.
\<close>

definition fetched_plus5 :: fetched where
  "fetched_plus5 =
     \<lparr>message = message_at (noon - hours 21) (Some (hours 5)) ''hello'', now_at = noon + 1000000,
      groq_at = groq_ok\<rparr>"

section \<open>Outcome and trace of a computation\<close>

lemma fst_io_bind: "fst (io_bind m f) = (case fst m of Inl e \<Rightarrow> Inl e | Inr v \<Rightarrow> fst (f v))"
  by (simp add: io_bind_def split: prod.splits sum.splits)

lemma snd_io_bind: "snd (io_bind m f) = snd m @ (case fst m of Inl e \<Rightarrow> [] | Inr v \<Rightarrow> snd (f v))"
  by (simp add: io_bind_def split: prod.splits sum.splits)

lemma fst_io_try: "fst (io_try m h) = (case fst m of Inl e \<Rightarrow> fst (h e) | Inr v \<Rightarrow> Inr v)"
  by (simp add: io_try_def split: prod.splits sum.splits)

lemma snd_io_try: "snd (io_try m h) = snd m @ (case fst m of Inl e \<Rightarrow> snd (h e) | Inr v \<Rightarrow> [])"
  by (simp add: io_try_def split: prod.splits sum.splits)

lemmas io_simps = fst_io_bind snd_io_bind fst_io_try snd_io_try io_return_def io_raise_def
  io_call_def io_pure_def logger_def

section \<open>The summarizer and the loop over the messages\<close>

lemma summarize_result:
  "fst (summarize_single_email g c) =
     Inr (case g (summary_request c) of
            Inl e \<Rightarrow> Some ''Failed to generate summary''
          | Inr cc \<Rightarrow>
              (case choices cc of [] \<Rightarrow> Some ''Failed to generate summary'' | s # _ \<Rightarrow> s))"
  by (simp add: summarize_single_email_def io_simps subscript0_def split: sum.splits list.splits)

lemma process_message_returns: "\<exists>r. fst (process_message d f) = Inr r"
  by (simp add: process_message_def io_simps split: sum.splits)

lemma process_messages_kept: "fst (process_messages d fs) = Inr (kept d fs)"
proof (induction fs)
  case Nil
  show ?case by (simp add: kept_def io_return_def map_filter_simps)
next
  case (Cons f fs)
  obtain r where r: "fst (process_message d f) = Inr r"
    using process_message_returns by blast
  show ?case
    using Cons r by (cases r) (simp_all add: kept_def io_simps)
qed

section \<open>The session\<close>

lemma fetch_sender_fst:
  "fst (fetch_sender w d k s) =
     (case snd (mailbox_fetch w k s (date_of d)) of
        None \<Rightarrow> Inr (kept d (fst (mailbox_fetch w k s (date_of d))))
      | Some e \<Rightarrow> Inl e)"
  by (simp add: fetch_sender_def io_simps process_messages_kept split: option.splits)

lemma fetch_senders_Inr:
  "fst (fetch_senders w d k ss) = Inr rs \<Longrightarrow>
   rs = concat (map (\<lambda>i. kept d (fst (mailbox_fetch w (k + i) (ss ! i) (date_of d))))
                  [0..<length ss])"
proof (induction ss arbitrary: k rs)
  case Nil
  then show ?case by (simp add: io_return_def)
next
  case (Cons s ss)
  from Cons.prems obtain r1 r2 where
    r1: "fst (fetch_sender w d k s) = Inr r1" and
    r2: "fst (fetch_senders w d (Suc k) ss) = Inr r2" and
    rs: "rs = r1 @ r2"
    by (auto simp: io_simps split: sum.splits)
  have "r1 = kept d (fst (mailbox_fetch w k s (date_of d)))"
    using r1 by (simp add: fetch_sender_fst split: option.splits)
  moreover have "r2 = concat (map (\<lambda>i. kept d (fst (mailbox_fetch w (Suc k + i) (ss ! i) (date_of d))))
                  [0..<length ss])"
    using Cons.IH [OF r2] .
  ultimately show ?case
    using rs by (simp add: upt_conv_Cons map_Suc_upt [symmetric] comp_def del: upt_Suc)
qed

lemma fst_with_mailbox:
  "fst (with_mailbox w h u p f body) =
     (case mailbox_login w h u p f of
        Some e \<Rightarrow> Inl e
      | None \<Rightarrow> (case mailbox_logout w of Some e \<Rightarrow> Inl e | None \<Rightarrow> fst body))"
  by (simp add: with_mailbox_def io_simps split: option.splits prod.splits)

lemma snd_with_mailbox:
  "snd (with_mailbox w h u p f body) =
     Mailbox_login h u p f #
     (case mailbox_login w h u p f of
        Some e \<Rightarrow> []
      | None \<Rightarrow> snd body @ [Mailbox_logout])"
  by (simp add: with_mailbox_def io_simps split: option.splits prod.splits)

lemma extract_Inr:
  assumes "fst (extract_emails_from_inbox w a p ss) = Inr rs"
  shows "datetime_sub \<lparr>wall = now w, tzinfo = utc\<rparr> (timedelta_days 1)
           = Inr \<lparr>wall = now w - timedelta_days 1, tzinfo = utc\<rparr>
         \<and> mailbox_login w ''imap.gmail.com'' a p ''INBOX'' = None
         \<and> mailbox_logout w = None
         \<and> fst (fetch_senders w \<lparr>wall = now w - timedelta_days 1, tzinfo = utc\<rparr> 0 ss) = Inr rs"
  using assms
  by (auto simp: extract_emails_from_inbox_def io_simps datetime_now_def fst_with_mailbox
      datetime_sub_def split: sum.splits option.splits if_splits)

section \<open>The record of a message\<close>

lemma process_message_fst:
  "fst (process_message d f) =
     Inr (case m_date (message f) of
            Inl e \<Rightarrow> None
          | Inr d0 \<Rightarrow>
              (case datetime_ge (replace_tzinfo d0 utc) d of
                 Inl e \<Rightarrow> None
               | Inr recent \<Rightarrow>
                   if \<not> recent then None
                   else
                     (case m_subject (message f) of
                        Inl e \<Rightarrow> None
                      | Inr sj \<Rightarrow>
                          (case m_from (message f) of
                             Inl e \<Rightarrow> None
                           | Inr fr \<Rightarrow>
                               (case m_to (message f) of
                                  Inl e \<Rightarrow> None
                                | Inr to \<Rightarrow>
                                    (case text_or_html (message f) of
                                       Inl e \<Rightarrow> None
                                     | Inr tx \<Rightarrow>
                                         Some \<lparr>subject = sj, from_address = fr,
                                               to_address = join '', '' to,
                                               date = replace_tzinfo d0 utc, text_body = tx,
                                               extracted_at = \<lparr>wall = now_at f, tzinfo = utc\<rparr>,
                                               summary =
                                                 (case fst (summarize_single_email (groq_at f)
                                                        \<lparr>subject = sj, from_address = fr,
                                                         to_address = join '', '' to,
                                                         date = replace_tzinfo d0 utc, text_body = tx,
                                                         extracted_at = \<lparr>wall = now_at f, tzinfo = utc\<rparr>,
                                                         summary = None\<rparr>) of
                                                    Inl e \<Rightarrow> None
                                                  | Inr s \<Rightarrow> Some s)\<rparr>))))))"
  by (simp add: process_message_def process_message_try_def io_simps Let_def datetime_now_def
      summarize_result split: sum.splits)

lemma process_message_Some:
  assumes "fst (process_message d f) = Inr (Some r)"
  shows "\<exists>d0 sj fr to tx s.
           m_date (message f) = Inr d0 \<and>
           datetime_ge (replace_tzinfo d0 utc) d = Inr True \<and>
           m_subject (message f) = Inr sj \<and> m_from (message f) = Inr fr \<and>
           m_to (message f) = Inr to \<and> text_or_html (message f) = Inr tx \<and>
           fst (summarize_single_email (groq_at f) (r\<lparr>summary := None\<rparr>)) = Inr s \<and>
           r = \<lparr>subject = sj, from_address = fr, to_address = join '', '' to,
                date = replace_tzinfo d0 utc, text_body = tx,
                extracted_at = \<lparr>wall = now_at f, tzinfo = utc\<rparr>, summary = Some s\<rparr>"
  using assms unfolding process_message_fst
  by (auto simp: summarize_result split: sum.splits if_splits)

section \<open>Worlds that agree\<close>

lemma kept_agree:
  assumes "\<And>f f'. R f f' \<Longrightarrow>
     map_sum id (map_option er) (fst (process_message d f'))
       = map_sum id (map_option er) (fst (process_message d f))"
  shows "list_all2 R fs fs' \<Longrightarrow> map er (kept d fs') = map er (kept d fs)"
proof (induction rule: list_all2_induct)
  case Nil
  show ?case by (simp add: kept_def)
next
  case (Cons f fs f' fs')
  obtain r r' where r: "fst (process_message d f) = Inr r" "fst (process_message d f') = Inr r'"
    using process_message_returns by blast
  have "map_option er r' = map_option er r"
    using assms [OF Cons.hyps(1)] r by simp
  then show ?case
    using Cons.IH r by (cases r; cases r') (simp_all add: kept_def)
qed

lemma fetch_senders_agree:
  assumes "\<And>f f'. R f f' \<Longrightarrow>
     map_sum id (map_option er) (fst (process_message d f'))
       = map_sum id (map_option er) (fst (process_message d f))"
    and "worlds_agree R w w'"
  shows "map_sum id (map er) (fst (fetch_senders w' d k ss))
       = map_sum id (map er) (fst (fetch_senders w d k ss))"
proof (induction ss arbitrary: k)
  case Nil
  show ?case by (simp add: io_return_def)
next
  case (Cons s ss)
  have f: "snd (mailbox_fetch w' k s (date_of d)) = snd (mailbox_fetch w k s (date_of d))"
    and l: "list_all2 R (fst (mailbox_fetch w k s (date_of d))) (fst (mailbox_fetch w' k s (date_of d)))"
    using assms(2) by (simp_all add: worlds_agree_def)
  have "map_sum id (map er) (fst (fetch_sender w' d k s))
      = map_sum id (map er) (fst (fetch_sender w d k s))"
    using f kept_agree [OF assms(1) l] by (simp add: fetch_sender_fst split: option.splits)
  then show ?case
    using Cons.IH [of "Suc k"]
    by (auto simp: io_simps split: sum.splits)
qed

lemma extract_fst:
  "fst (extract_emails_from_inbox w a p ss) =
     (case datetime_sub \<lparr>wall = now w, tzinfo = utc\<rparr> (timedelta_days 1) of
        Inl e \<Rightarrow> Inl (fetch_failed a e)
      | Inr d \<Rightarrow>
          (case mailbox_login w ''imap.gmail.com'' a p ''INBOX'' of
             Some e \<Rightarrow> Inl (fetch_failed a e)
           | None \<Rightarrow>
               (case mailbox_logout w of
                  Some e \<Rightarrow> Inl (fetch_failed a e)
                | None \<Rightarrow>
                    (case fst (fetch_senders w d 0 ss) of
                       Inl e \<Rightarrow> Inl (fetch_failed a e)
                     | Inr rs \<Rightarrow> Inr rs))))"
  by (simp add: extract_emails_from_inbox_def io_simps datetime_now_def fst_with_mailbox
      fetch_failed_def split: sum.splits option.splits)

lemma map_sum_case_agree:
  "map_sum id g x' = map_sum id g x \<Longrightarrow>
   map_sum id g (case x' of Inl e \<Rightarrow> Inl (h e) | Inr r \<Rightarrow> Inr r)
     = map_sum id g (case x of Inl e \<Rightarrow> Inl (h e) | Inr r \<Rightarrow> Inr r)"
  by (cases x; cases x') simp_all

lemma extract_agree:
  assumes "\<And>d f f'. R f f' \<Longrightarrow>
     map_sum id (map_option er) (fst (process_message d f'))
       = map_sum id (map_option er) (fst (process_message d f))"
    and "worlds_agree R w w'"
  shows "map_sum id (map er) (fst (extract_emails_from_inbox w' a p ss))
       = map_sum id (map er) (fst (extract_emails_from_inbox w a p ss))"
proof -
  have eq: "now w' = now w" "mailbox_login w' = mailbox_login w" "mailbox_logout w' = mailbox_logout w"
    using assms(2) by (simp_all add: worlds_agree_def)
  have "map_sum id (map er) (fst (fetch_senders w' d 0 ss))
      = map_sum id (map er) (fst (fetch_senders w d 0 ss))" for d
    using fetch_senders_agree [OF assms(1) assms(2)] by simp
  then have fs: "map_sum id (map er) (case fst (fetch_senders w' d 0 ss) of
                     Inl e \<Rightarrow> Inl (fetch_failed a e) | Inr rs \<Rightarrow> Inr rs)
      = map_sum id (map er) (case fst (fetch_senders w d 0 ss) of
                     Inl e \<Rightarrow> Inl (fetch_failed a e) | Inr rs \<Rightarrow> Inr rs)" for d
    by (rule map_sum_case_agree)
  show ?thesis
  proof (cases "datetime_sub \<lparr>wall = now w, tzinfo = utc\<rparr> (timedelta_days 1)")
    case (Inl e)
    then show ?thesis by (simp add: extract_fst eq)
  next
    case (Inr d0)
    then show ?thesis
      using fs [of d0] by (simp add: extract_fst eq split: option.splits)
  qed
qed

section \<open>Inserts and searches in a trace\<close>

lemma inserts_of_append: "inserts_of (t1 @ t2) = inserts_of t1 @ inserts_of t2"
  by (induction t1 rule: inserts_of.induct) simp_all

lemma trace_io_bind:
  "list_all P (snd m) \<Longrightarrow> (\<And>v. list_all P (snd (f v))) \<Longrightarrow> list_all P (snd (io_bind m f))"
  by (simp add: snd_io_bind split: sum.splits)

lemma trace_io_try:
  "list_all P (snd m) \<Longrightarrow> (\<And>e. list_all P (snd (h e))) \<Longrightarrow> list_all P (snd (io_try m h))"
  by (simp add: snd_io_try split: sum.splits)

lemma trace_if:
  "list_all P (snd a) \<Longrightarrow> list_all P (snd b) \<Longrightarrow> list_all P (snd (if c then a else b))"
  by simp

lemma inner_summarize: "list_all inner_effect (snd (summarize_single_email g c))"
  unfolding summarize_single_email_def
  by (intro trace_io_bind trace_io_try) (simp_all add: io_simps inner_effect_def)

lemma inner_process_message: "list_all inner_effect (snd (process_message d f))"
  unfolding process_message_def process_message_try_def Let_def
  by (intro trace_io_bind trace_io_try trace_if inner_summarize)
     (simp_all add: io_simps inner_effect_def datetime_now_def)

lemma inner_process_messages: "list_all inner_effect (snd (process_messages d fs))"
  by (induction fs) (auto simp: io_return_def intro!: trace_io_bind inner_process_message)

lemma inserts_of_inner: "list_all inner_effect t \<Longrightarrow> inserts_of t = []"
  by (induction t rule: inserts_of.induct) (simp_all add: inner_effect_def)

lemma fetches_of_inner: "list_all inner_effect t \<Longrightarrow> fetches_of t = []"
  by (induction t rule: fetches_of.induct) (simp_all add: inner_effect_def)

lemma inserts_of_fetch_senders: "inserts_of (snd (fetch_senders w d k ss)) = []"
  by (induction ss arbitrary: k)
     (simp_all add: fetch_sender_def io_simps inserts_of_append
        inserts_of_inner [OF inner_process_messages] split: sum.splits option.splits)

lemma inserts_of_extract: "inserts_of (snd (extract_emails_from_inbox w a p ss)) = []"
  by (simp add: extract_emails_from_inbox_def io_simps datetime_now_def snd_with_mailbox
      inserts_of_append inserts_of_fetch_senders split: sum.splits option.splits)

lemma store_emails_fst:
  "fst (store_emails w k rs n) =
     Inr (n + length (filter (\<lambda>(i, r). supabase_insert w i r = None) (zip [k..<k + length rs] rs)))"
proof (induction rs arbitrary: k n)
  case Nil
  show ?case by (simp add: io_return_def)
next
  case (Cons r rs)
  have "[k..<k + length (r # rs)] = k # [Suc k..<Suc k + length rs]"
    by (subst upt_rec) simp
  then show ?case
    using Cons.IH [of "Suc k"]
    by (simp add: io_simps split: option.splits)
qed

lemma store_emails_inserts: "inserts_of (snd (store_emails w k rs n)) = rs"
  by (induction rs arbitrary: k n)
     (simp_all add: io_simps inserts_of_append split: option.splits sum.splits)

lemma extract_from_email_inserts:
  "inserts_of (snd (extract_from_email w request)) =
     (case fst (extract_emails_from_inbox w (req_email_address request) (req_password request)
                  (req_sender_addresses request)) of
        Inl e \<Rightarrow> []
      | Inr rs \<Rightarrow> rs)"
  by (simp add: extract_from_email_def io_simps inserts_of_append inserts_of_extract
      store_emails_inserts store_emails_fst split: sum.splits exc.splits)

section \<open>Where a record comes from\<close>

lemma kept_origin:
  "r \<in> set (kept d fs) \<Longrightarrow> \<exists>f\<in>set fs. fst (process_message d f) = Inr (Some r)"
proof (induction fs)
  case Nil
  then show ?case by (simp add: kept_def)
next
  case (Cons f fs)
  obtain x where x: "fst (process_message d f) = Inr x"
    using process_message_returns by blast
  show ?case
    using Cons x by (cases x) (auto simp: kept_def)
qed

lemma extracted_record_origin:
  assumes "fst (extract_emails_from_inbox w a p ss) = Inr rs" and "r \<in> set rs"
  shows "\<exists>k<length ss.
           \<exists>f\<in>set (fst (mailbox_fetch w k (ss ! k)
                     (date_of \<lparr>wall = now w - timedelta_days 1, tzinfo = utc\<rparr>))).
             fst (process_message \<lparr>wall = now w - timedelta_days 1, tzinfo = utc\<rparr> f) = Inr (Some r)"
proof -
  let ?d = "\<lparr>wall = now w - timedelta_days 1, tzinfo = utc\<rparr>"
  have "fst (fetch_senders w ?d 0 ss) = Inr rs"
    using extract_Inr [OF assms(1)] by simp
  then have "rs = concat (map (\<lambda>i. kept ?d (fst (mailbox_fetch w (0 + i) (ss ! i) (date_of ?d))))
                  [0..<length ss])"
    by (rule fetch_senders_Inr)
  with assms(2) obtain k where "k < length ss"
    and "r \<in> set (kept ?d (fst (mailbox_fetch w k (ss ! k) (date_of ?d))))"
    by auto
  then show ?thesis
    using kept_origin by blast
qed

lemma skipped_message:
  assumes "m_date (message f) = Inr d"
    and "datetime_ge (replace_tzinfo d utc) date_since = Inr False"
  shows "process_message date_since f =
           (Inr None,
            [Log DEBUG [Txt ''Message date: '', Str_datetime (replace_tzinfo d utc),
                        Txt '', Comparing with: '', Str_datetime date_since],
             Log DEBUG [Txt ''Skipping email from '', Str_datetime (replace_tzinfo d utc),
                        Txt '' as it's older than '', Str_datetime date_since]])"
  using assms
  by (simp add: process_message_def process_message_try_def io_bind_def io_try_def io_pure_def
      logger_def io_return_def Let_def)

section \<open>The sample inputs, evaluated\<close>

lemma sample_cutoff:
  "datetime_sub \<lparr>wall = noon, tzinfo = utc\<rparr> (timedelta_days 1)
     = Inr \<lparr>wall = noon - hours 24, tzinfo = utc\<rparr>"
  by (simp add: datetime_sub_def timedelta_days_def datetime_max_def noon_def hours_def)

lemma sample_cutoff_wall: "noon - timedelta_days 1 = noon - hours 24"
  by (simp add: timedelta_days_def hours_def)

lemma process_fetched_recent:
  "fst (process_message \<lparr>wall = noon - hours 24, tzinfo = utc\<rparr> fetched_recent)
     = Inr (Some (record_recent\<lparr>summary := Some (Some ''A greeting.'')\<rparr>))"
  by (simp add: process_message_fst fetched_recent_def message_at_def record_recent_def
      replace_tzinfo_def datetime_ge_def utc_def hours_def noon_def text_or_html_def
      summarize_result groq_ok_def)

lemma process_fetched_html:
  "fst (process_message \<lparr>wall = noon - hours 24, tzinfo = utc\<rparr> fetched_html) = Inr (Some record_html)"
  by (simp add: process_message_fst fetched_html_def message_at_def record_html_def
      replace_tzinfo_def datetime_ge_def utc_def hours_def noon_def text_or_html_def
      summarize_result groq_ok_def)

lemma extract_world_of:
  "fst (extract_emails_from_inbox (world_of fs) a ''secret'' [s])
     = Inr (kept \<lparr>wall = noon - hours 24, tzinfo = utc\<rparr> fs)"
  using sample_cutoff
  by (simp add: extract_fst world_of_def io_simps fetch_sender_fst)

section \<open>The trace of the session\<close>

lemma fetches_of_append: "fetches_of (t1 @ t2) = fetches_of t1 @ fetches_of t2"
  by (induction t1 rule: fetches_of.induct) simp_all

lemma fetches_of_fetch_senders:
  "fst (fetch_senders w d k ss) = Inr rs \<Longrightarrow>
   fetches_of (snd (fetch_senders w d k ss)) = map (\<lambda>s. (s, date_of d)) ss"
proof (induction ss arbitrary: k rs)
  case Nil
  show ?case by (simp add: io_return_def)
next
  case (Cons s ss)
  from Cons.prems obtain r1 r2 where
    r1: "fst (fetch_sender w d k s) = Inr r1" and
    r2: "fst (fetch_senders w d (Suc k) ss) = Inr r2"
    by (auto simp: io_simps split: sum.splits)
  have "fetches_of (snd (fetch_sender w d k s)) = [(s, date_of d)]"
    by (simp add: fetch_sender_def io_simps fetches_of_append
        fetches_of_inner [OF inner_process_messages] split: sum.splits option.splits)
  then show ?case
    using Cons.IH [OF r2] r1 r2 by (simp add: io_simps fetches_of_append)
qed

lemma extract_snd:
  "snd (extract_emails_from_inbox w a p ss) =
     Log INFO [Txt ''Attempting to connect to Gmail IMAP for: '', Txt a] # Datetime_now #
     (case datetime_sub \<lparr>wall = now w, tzinfo = utc\<rparr> (timedelta_days 1) of
        Inl e \<Rightarrow> [Log ERROR [Txt ''Failed to fetch emails: '', Txt e]]
      | Inr d \<Rightarrow>
          Mailbox_login ''imap.gmail.com'' a p ''INBOX'' #
          (case mailbox_login w ''imap.gmail.com'' a p ''INBOX'' of
             Some e \<Rightarrow> [Log ERROR [Txt ''Failed to fetch emails: '', Txt e]]
           | None \<Rightarrow>
               Log INFO [Txt ''Successfully connected to Gmail''] #
               snd (fetch_senders w d 0 ss) @
               Mailbox_logout #
               (case mailbox_logout w of
                  Some e \<Rightarrow> [Log ERROR [Txt ''Failed to fetch emails: '', Txt e]]
                | None \<Rightarrow>
                    (case fst (fetch_senders w d 0 ss) of
                       Inl e \<Rightarrow> [Log ERROR [Txt ''Failed to fetch emails: '', Txt e]]
                     | Inr rs \<Rightarrow>
                         [Log INFO [Txt ''Successfully extracted '', Num (length rs),
                                    Txt '' emails'']]))))"
  by (simp add: extract_emails_from_inbox_def io_simps datetime_now_def fst_with_mailbox
      snd_with_mailbox split: sum.splits option.splits)

lemma process_message_agree_clock:
  assumes "message f' = message f" "groq_at f' = groq_at f"
  shows "map_sum id (map_option (\<lambda>r. r\<lparr>extracted_at := x\<rparr>)) (fst (process_message d f'))
       = map_sum id (map_option (\<lambda>r. r\<lparr>extracted_at := x\<rparr>)) (fst (process_message d f))"
  using assms
  by (simp add: process_message_fst summarize_result summary_request_def split: sum.splits)

section \<open>A world without one message\<close>

lemma kept_append: "kept d (xs @ ys) = kept d xs @ kept d ys"
  by (simp add: kept_def map_filter_def)

lemma kept_without:
  assumes "i < length fs" and "fst (process_message d (fs ! i)) = Inr None"
  shows "kept d (take i fs @ drop (Suc i) fs) = kept d fs"
proof -
  have "fs = take i fs @ fs ! i # drop (Suc i) fs"
    using assms(1) by (rule id_take_nth_drop)
  then have "kept d fs = kept d (take i fs) @ kept d [fs ! i] @ kept d (drop (Suc i) fs)"
    by (metis append_Cons append_Nil kept_append)
  moreover have "kept d [fs ! i] = []"
    using assms(2) by (simp add: kept_def)
  ultimately show ?thesis
    by (simp add: kept_append)
qed

lemma fetch_senders_without:
  assumes "k0 \<le> k \<and> k < k0 + length ss \<longrightarrow>
             i < length (fst (mailbox_fetch w k (ss ! (k - k0)) (date_of d))) \<and>
             fst (process_message d (fst (mailbox_fetch w k (ss ! (k - k0)) (date_of d)) ! i)) = Inr None"
  shows "fst (fetch_senders (without_message k i w) d k0 ss) = fst (fetch_senders w d k0 ss)"
  using assms
proof (induction ss arbitrary: k0)
  case Nil
  show ?case by (simp add: io_return_def)
next
  case (Cons s ss)
  have one: "fst (fetch_sender (without_message k i w) d k0 s) = fst (fetch_sender w d k0 s)"
  proof (cases "k0 = k")
    case True
    then have "i < length (fst (mailbox_fetch w k s (date_of d)))"
      and "fst (process_message d (fst (mailbox_fetch w k s (date_of d)) ! i)) = Inr None"
      using Cons.prems by simp_all
    then show ?thesis
      using True by (simp add: fetch_sender_fst without_message_def kept_without split: option.splits)
  next
    case False
    then show ?thesis
      by (simp add: fetch_sender_fst without_message_def split: option.splits)
  qed
  have "Suc k0 \<le> k \<and> k < Suc k0 + length ss \<longrightarrow>
          i < length (fst (mailbox_fetch w k (ss ! (k - Suc k0)) (date_of d))) \<and>
          fst (process_message d (fst (mailbox_fetch w k (ss ! (k - Suc k0)) (date_of d)) ! i)) = Inr None"
  proof
    assume h: "Suc k0 \<le> k \<and> k < Suc k0 + length ss"
    then have "(s # ss) ! (k - k0) = ss ! (k - Suc k0)"
      by (simp add: nth_Cons')
    with h Cons.prems show "i < length (fst (mailbox_fetch w k (ss ! (k - Suc k0)) (date_of d))) \<and>
          fst (process_message d (fst (mailbox_fetch w k (ss ! (k - Suc k0)) (date_of d)) ! i)) = Inr None"
      by auto
  qed
  then have "fst (fetch_senders (without_message k i w) d (Suc k0) ss)
      = fst (fetch_senders w d (Suc k0) ss)"
    by (rule Cons.IH)
  with one show ?case
    by (simp add: io_simps split: sum.splits)
qed

lemma process_message_caught:
  assumes "fst (process_message_try d f) = Inl e"
  shows "process_message d f =
           (Inr None,
            snd (process_message_try d f) @
              [Log ERROR [Txt ''Error processing individual email: '', Txt e]])"
  using assms
  by (cases "process_message_try d f")
     (simp add: process_message_def io_try_def io_bind_def logger_def io_return_def)

lemma extract_one_sender:
  assumes "now w = noon" and "mailbox_login w ''imap.gmail.com'' a p ''INBOX'' = None"
    and "mailbox_logout w = None"
    and "mailbox_fetch w 0 s (date_of \<lparr>wall = noon - hours 24, tzinfo = utc\<rparr>) = (fs, None)"
  shows "fst (extract_emails_from_inbox w a p [s])
     = Inr (kept \<lparr>wall = noon - hours 24, tzinfo = utc\<rparr> fs)"
  using sample_cutoff assms
  by (simp add: extract_fst io_simps fetch_sender_fst)

section \<open>The response of the extraction endpoint\<close>

lemma extract_from_email_fst:
  "fst (extract_from_email w request) =
     (case fst (extract_emails_from_inbox w (req_email_address request) (req_password request)
                  (req_sender_addresses request)) of
        Inl e \<Rightarrow>
          Inl (case e of
                 HTTPException status_code d \<Rightarrow> e
               | Exception s \<Rightarrow> HTTPException 500 (Detail_str s))
      | Inr extracted_emails \<Rightarrow>
          if extracted_emails = [] then
            Inr [(''message'', JStr ''No emails found in the last 24 hours from specified senders''),
                 (''senders_processed'', JList (req_sender_addresses request))]
          else
            Inr [(''message'', JStr ''Emails extracted and stored successfully''),
                 (''emails_found'', JInt (length extracted_emails)),
                 (''emails_stored'',
                  JInt (length (filter (\<lambda>(k, r). supabase_insert w k r = None)
                                  (enumerate 0 extracted_emails)))),
                 (''senders_processed'', JList (req_sender_addresses request))])"
  by (simp add: extract_from_email_def io_simps store_emails_fst enumerate_eq_zip
      split: sum.splits exc.splits)

section \<open>The listing endpoint\<close>

lemma mset_select_order: "mset (select_order_date_desc rows) = mset rows"
  by (simp add: select_order_date_desc_def)

lemma sorted_select_order:
  "sorted_wrt (\<lambda>a b. timestamptz (date b) \<le> timestamptz (date a)) (select_order_date_desc rows)"
proof -
  have "sorted (map (\<lambda>r. timestamptz (date r)) (sort_key (\<lambda>r. timestamptz (date r)) rows))"
    by (rule sorted_sort_key)
  then show ?thesis
    by (simp add: select_order_date_desc_def sorted_wrt_rev sorted_map)
qed

lemma select_order_Nil: "select_order_date_desc rows = [] \<longleftrightarrow> rows = []"
  using mset_select_order [of rows] by (metis mset_zero_iff)

lemma get_emails_fst:
  "fst (get_emails st) =
     (case select_raises st of
        Some e \<Rightarrow> Inl (HTTPException 500 (Detail_str e))
      | None \<Rightarrow>
          if emails_table st = [] then Inr [(''message'', JStr ''No emails found in database'')]
          else Inr [(''emails'', JRows (select_order_date_desc (emails_table st))),
                    (''total_count'', JInt (length (select_order_date_desc (emails_table st))))])"
  by (simp add: get_emails_def io_simps select_order_Nil split: option.splits)

section \<open>The log records of a request\<close>

lemma logs_of_append: "logs_of (t1 @ t2) = logs_of t1 @ logs_of t2"
  by (induction t1 rule: logs_of.induct) simp_all

lemma extract_from_email_snd:
  "snd (extract_from_email w request) =
     Log INFO [Txt ''Starting email extraction for: '', Txt (req_email_address request)] #
     snd (extract_emails_from_inbox w (req_email_address request) (req_password request)
            (req_sender_addresses request)) @
     (case fst (extract_emails_from_inbox w (req_email_address request) (req_password request)
                  (req_sender_addresses request)) of
        Inl e \<Rightarrow> [Log ERROR [Txt ''Error in extract_from_email: '', Str_exc e]]
      | Inr extracted_emails \<Rightarrow>
          if extracted_emails = [] then
            [Log WARNING [Txt ''No emails found in the last 24 hours from specified senders'']]
          else
            Log INFO [Txt ''Storing emails in Supabase''] #
            snd (store_emails w 0 extracted_emails 0))"
  by (simp add: extract_from_email_def io_simps store_emails_fst split: sum.splits exc.splits)

lemma extract_same_login:
  assumes "mailbox_login w ''imap.gmail.com'' a p1 ''INBOX''
         = mailbox_login w ''imap.gmail.com'' a p2 ''INBOX''"
  shows "fst (extract_emails_from_inbox w a p1 ss) = fst (extract_emails_from_inbox w a p2 ss)"
    and "logs_of (snd (extract_emails_from_inbox w a p1 ss))
       = logs_of (snd (extract_emails_from_inbox w a p2 ss))"
  using assms
  by (simp_all add: extract_fst extract_snd logs_of_append split: sum.splits option.splits)

section \<open>What the filter and the summarizer do guarantee\<close>

text \<open>
  The date field of a returned record, which is the date of the message relabelled as UTC,
  carries the zone UTC and reads at or after the cutoff.
\<close>

lemma date_field_after_cutoff:
  assumes "fst (extract_emails_from_inbox w email_address password sender_addresses) = Inr email_data"
    and "r \<in> set email_data"
  shows "tzinfo (date r) = utc \<and> now w - timedelta_days 1 \<le> wall (date r)"
proof -
  let ?d = "\<lparr>wall = now w - timedelta_days 1, tzinfo = utc\<rparr>"
  obtain f where "fst (process_message ?d f) = Inr (Some r)"
    using extracted_record_origin [OF assms] by blast
  then show ?thesis
    using process_message_Some [of ?d f r]
    by (auto simp: replace_tzinfo_def datetime_ge_def utc_def)
qed

lemma summarize_never_raises: "\<exists>s. fst (summarize_single_email g c) = Inr s"
  by (simp add: summarize_result)

lemma summarize_raised_sentinel:
  "summarization_fails g c \<Longrightarrow>
   fst (summarize_single_email g c) = Inr (Some ''Failed to generate summary'')"
  by (simp add: summarize_result summarization_fails_def split: sum.splits list.splits)

lemma kept_member:
  "f \<in> set fs \<Longrightarrow> fst (process_message d f) = Inr (Some r) \<Longrightarrow> r \<in> set (kept d fs)"
proof (induction fs)
  case Nil
  then show ?case by simp
next
  case (Cons g fs)
  obtain x where x: "fst (process_message d g) = Inr x"
    using process_message_returns by blast
  show ?case
    using Cons x by (cases x) (auto simp: kept_def)
qed

text \<open>
  When the \<open>try\<close> block of the summarizer raises for a message that passes the filter, and
  the extraction returns, the record of that message is among the records returned, its
  summary is the literal, and \<open>/extract\<close> attempts its insert.
\<close>

lemma raised_summarization_record_stored:
  assumes run: "fst (extract_emails_from_inbox w email_address password sender_addresses) = Inr email_data"
    and k: "k < length sender_addresses"
    and f: "f \<in> set (fst (mailbox_fetch w k (sender_addresses ! k)
                 (date_of \<lparr>wall = now w - timedelta_days 1, tzinfo = utc\<rparr>)))"
    and r: "fst (process_message \<lparr>wall = now w - timedelta_days 1, tzinfo = utc\<rparr> f) = Inr (Some r)"
    and fails: "summarization_fails (groq_at f) (r\<lparr>summary := None\<rparr>)"
  shows "summary r = Some (Some ''Failed to generate summary'')
       \<and> r \<in> set email_data
       \<and> r \<in> set (inserts_of (snd (extract_from_email w
               \<lparr>req_email_address = email_address, req_password = password,
                req_sender_addresses = sender_addresses\<rparr>)))"
proof -
  let ?d = "\<lparr>wall = now w - timedelta_days 1, tzinfo = utc\<rparr>"
  obtain s where s: "fst (summarize_single_email (groq_at f) (r\<lparr>summary := None\<rparr>)) = Inr s"
    and sr: "summary r = Some s"
    using process_message_Some [OF r] by auto
  have a: "summary r = Some (Some ''Failed to generate summary'')"
    using summarize_raised_sentinel [OF fails] s sr by simp
  have "fst (fetch_senders w ?d 0 sender_addresses) = Inr email_data"
    using extract_Inr [OF run] by simp
  then have "email_data
      = concat (map (\<lambda>i. kept ?d (fst (mailbox_fetch w (0 + i) (sender_addresses ! i) (date_of ?d))))
                  [0..<length sender_addresses])"
    by (rule fetch_senders_Inr)
  moreover have "r \<in> set (kept ?d (fst (mailbox_fetch w k (sender_addresses ! k) (date_of ?d))))"
    using f r by (rule kept_member)
  ultimately have b: "r \<in> set email_data"
    using k by auto
  then have "r \<in> set (inserts_of (snd (extract_from_email w
               \<lparr>req_email_address = email_address, req_password = password,
                req_sender_addresses = sender_addresses\<rparr>)))"
    using run by (simp add: extract_from_email_inserts)
  with a b show ?thesis by simp
qed

section \<open>The claims\<close>

text \<open>
  C1, on the code. At noon the cutoff is 12:00 UTC of the day before. The message of
  \<open>fetched_plus5\<close> was sent at 10:00 UTC of that day: its date compares earlier than the
  cutoff. It is not skipped: \<open>extract_emails_from_inbox\<close> returns a record for it, because
  the filter compares the date relabelled as UTC, 15:00, and not the date of the message.
\<close>

theorem message_before_cutoff_returned:
  "datetime_sub \<lparr>wall = now (world_of [fetched_plus5]), tzinfo = utc\<rparr> (timedelta_days 1)
     = Inr \<lparr>wall = noon - hours 24, tzinfo = utc\<rparr>
   \<and> m_date (message fetched_plus5) = Inr \<lparr>wall = noon - hours 21, tzinfo = Some (hours 5)\<rparr>
   \<and> datetime_ge \<lparr>wall = noon - hours 21, tzinfo = Some (hours 5)\<rparr>
        \<lparr>wall = noon - hours 24, tzinfo = utc\<rparr> = Inr False
   \<and> fst (extract_emails_from_inbox (world_of [fetched_plus5]) ''me@y.com'' ''secret'' [''a@x.com''])
       = Inr [record_recent\<lparr>date := \<lparr>wall = noon - hours 21, tzinfo = utc\<rparr>,
                             summary := Some (Some ''A greeting.'')\<rparr>]"
proof -
  have p: "fst (process_message \<lparr>wall = noon - hours 24, tzinfo = utc\<rparr> fetched_plus5)
      = Inr (Some (record_recent\<lparr>date := \<lparr>wall = noon - hours 21, tzinfo = utc\<rparr>,
                                 summary := Some (Some ''A greeting.'')\<rparr>))"
    by (simp add: process_message_fst fetched_plus5_def message_at_def record_recent_def
        replace_tzinfo_def datetime_ge_def utc_def hours_def noon_def text_or_html_def
        summarize_result groq_ok_def)
  have n: "now (world_of [fetched_plus5]) = noon"
    by (simp add: world_of_def)
  show ?thesis
    by (simp add: extract_world_of kept_def p n sample_cutoff)
       (simp add: fetched_plus5_def message_at_def datetime_ge_def utc_def hours_def)
qed

text \<open>
  C2, on the code. A message sent 26 hours before the clock reading, whose Date header
  carries the offset +05:00, is given the date that reads the same on the clock in UTC,
  five hours after the instant of the message; with it the message passes the filter
  of the last 24 hours and is returned.
\<close>

theorem relabelled_date_is_another_instant:
  "m_date (message fetched_plus5) = Inr \<lparr>wall = noon - hours 21, tzinfo = Some (hours 5)\<rparr>
   \<and> instant \<lparr>wall = noon - hours 21, tzinfo = Some (hours 5)\<rparr> = Some (noon - hours 26)
   \<and> fst (extract_emails_from_inbox (world_of [fetched_plus5]) ''me@y.com'' ''secret'' [''a@x.com''])
       = Inr [record_recent\<lparr>date := \<lparr>wall = noon - hours 21, tzinfo = utc\<rparr>,
                             summary := Some (Some ''A greeting.'')\<rparr>]
   \<and> instant \<lparr>wall = noon - hours 21, tzinfo = utc\<rparr> = Some (noon - hours 21)"
proof -
  have p: "fst (process_message \<lparr>wall = noon - hours 24, tzinfo = utc\<rparr> fetched_plus5)
      = Inr (Some (record_recent\<lparr>date := \<lparr>wall = noon - hours 21, tzinfo = utc\<rparr>,
                                 summary := Some (Some ''A greeting.'')\<rparr>))"
    by (simp add: process_message_fst fetched_plus5_def message_at_def record_recent_def
        replace_tzinfo_def datetime_ge_def utc_def hours_def noon_def text_or_html_def
        summarize_result groq_ok_def)
  show ?thesis
    by (simp add: extract_world_of kept_def p)
       (simp add: fetched_plus5_def message_at_def instant_def utc_def hours_def)
qed

text \<open>
  C3. Every record \<open>extract_emails_from_inbox\<close> returns is the record of a message the
  session yielded, and its text is the plain text body of that message when that body is
  not empty, and the HTML body of the message otherwise.
\<close>

theorem record_text_plain_or_html:
  assumes "fst (extract_emails_from_inbox w email_address password sender_addresses) = Inr email_data"
    and "r \<in> set email_data"
  shows "\<exists>k<length sender_addresses.
           \<exists>f\<in>set (fst (mailbox_fetch w k (sender_addresses ! k)
                     (date_of \<lparr>wall = now w - timedelta_days 1, tzinfo = utc\<rparr>))).
             fst (process_message \<lparr>wall = now w - timedelta_days 1, tzinfo = utc\<rparr> f) = Inr (Some r)
             \<and> (\<exists>t. m_text (message f) = Inr t
                    \<and> (if t \<noteq> [] then text_body r = t
                        else m_html (message f) = Inr (text_body r)))"
proof -
  let ?d = "\<lparr>wall = now w - timedelta_days 1, tzinfo = utc\<rparr>"
  obtain k f where k: "k < length sender_addresses"
    and f: "f \<in> set (fst (mailbox_fetch w k (sender_addresses ! k) (date_of ?d)))"
    and r: "fst (process_message ?d f) = Inr (Some r)"
    using extracted_record_origin [OF assms] by blast
  obtain tx where tx: "text_or_html (message f) = Inr tx" and "text_body r = tx"
    using process_message_Some [OF r] by auto
  then have "\<exists>t. m_text (message f) = Inr t
      \<and> (if t \<noteq> [] then text_body r = t else m_html (message f) = Inr (text_body r))"
    by (auto simp: text_or_html_def split: sum.splits if_splits)
  with k f r show ?thesis by blast
qed

theorem record_text_plain_or_html_witness:
  "fst (extract_emails_from_inbox (world_of [fetched_recent, fetched_html])
          ''me@y.com'' ''secret'' [''a@x.com''])
     = Inr [record_recent\<lparr>summary := Some (Some ''A greeting.'')\<rparr>, record_html]
   \<and> m_text (message fetched_recent) = Inr ''hello''
   \<and> text_body (record_recent\<lparr>summary := Some (Some ''A greeting.'')\<rparr>) = ''hello''
   \<and> m_text (message fetched_html) = Inr []
   \<and> m_html (message fetched_html) = Inr ''<p>hello</p>''
   \<and> text_body record_html = ''<p>hello</p>''
   \<and> (\<exists>f\<in>{fetched_recent, fetched_html}.
         fst (process_message \<lparr>wall = noon - hours 24, tzinfo = utc\<rparr> f) = Inr (Some record_html)
         \<and> (\<exists>t. m_text (message f) = Inr t
                \<and> (if t \<noteq> [] then text_body record_html = t
                    else m_html (message f) = Inr (text_body record_html))))"
proof -
  have run: "fst (extract_emails_from_inbox (world_of [fetched_recent, fetched_html])
          ''me@y.com'' ''secret'' [''a@x.com''])
     = Inr [record_recent\<lparr>summary := Some (Some ''A greeting.'')\<rparr>, record_html]"
    by (simp add: extract_world_of kept_def process_fetched_recent process_fetched_html)
  have mem: "record_html \<in> set [record_recent\<lparr>summary := Some (Some ''A greeting.'')\<rparr>, record_html]"
    by simp
  show ?thesis
    using record_text_plain_or_html [OF run mem] run
    by (simp add: world_of_def sample_cutoff_wall)
       (simp add: fetched_recent_def fetched_html_def message_at_def record_recent_def
          record_html_def)
qed

text \<open>
  C4, on the code. The chat client answers with a completion whose first choice has no
  content. \<open>summarize_single_email\<close> returns \<open>None\<close>, not the literal
  \<open>Failed to generate summary\<close> it returns when the client raises, and logs no error;
  the record is returned and inserted with \<open>None\<close> as its summary.
\<close>

theorem null_content_returned_unchecked:
  "fst (summarize_single_email groq_null record_recent) = Inr None
   \<and> logs_of (snd (summarize_single_email groq_null record_recent))
       = [(INFO, [Txt ''Generating summary for email: '', Txt ''Hi'', Txt ''...''])]
   \<and> fst (summarize_single_email groq_down record_recent)
       = Inr (Some ''Failed to generate summary'')
   \<and> fst (extract_emails_from_inbox (world_of [fetched_recent\<lparr>groq_at := groq_null\<rparr>])
            ''me@y.com'' ''secret'' [''a@x.com''])
       = Inr [record_recent\<lparr>summary := Some None\<rparr>]
   \<and> inserts_of (snd (extract_from_email (world_of [fetched_recent\<lparr>groq_at := groq_null\<rparr>])
            \<lparr>req_email_address = ''me@y.com'', req_password = ''secret'',
             req_sender_addresses = [''a@x.com'']\<rparr>))
       = [record_recent\<lparr>summary := Some None\<rparr>]"
proof -
  have a: "fst (summarize_single_email groq_null record_recent) = Inr None"
    by (simp add: summarize_result groq_null_def)
  have b: "logs_of (snd (summarize_single_email groq_null record_recent))
       = [(INFO, [Txt ''Generating summary for email: '', Txt ''Hi'', Txt ''...''])]"
    by (simp add: summarize_single_email_def io_simps groq_null_def subscript0_def
        record_recent_def)
  have c: "fst (summarize_single_email groq_down record_recent)
       = Inr (Some ''Failed to generate summary'')"
    by (simp add: summarize_result groq_down_def)
  have p: "fst (process_message \<lparr>wall = noon - hours 24, tzinfo = utc\<rparr>
                 (fetched_recent\<lparr>groq_at := groq_null\<rparr>))
      = Inr (Some (record_recent\<lparr>summary := Some None\<rparr>))"
    by (simp add: process_message_fst fetched_recent_def message_at_def record_recent_def
        replace_tzinfo_def datetime_ge_def utc_def hours_def noon_def text_or_html_def
        summarize_result groq_null_def)
  have run: "fst (extract_emails_from_inbox (world_of [fetched_recent\<lparr>groq_at := groq_null\<rparr>])
            ''me@y.com'' ''secret'' [''a@x.com''])
       = Inr [record_recent\<lparr>summary := Some None\<rparr>]"
    by (simp add: extract_world_of kept_def p)
  from a b c run show ?thesis
    by (simp add: extract_from_email_inserts)
qed

text \<open>
  C5. When the \<open>try\<close> block raises for a message the session yields, the exception is
  caught: the loop body logs it and appends nothing; and the outcome of
  \<open>extract_emails_from_inbox\<close>, the records of all other messages of all senders or the
  exception of the session, is the outcome in the world without that message.
\<close>

theorem failing_message_skipped:
  assumes "datetime_sub \<lparr>wall = now w, tzinfo = utc\<rparr> (timedelta_days 1) = Inr date_since"
    and "k < length sender_addresses"
    and "i < length (fst (mailbox_fetch w k (sender_addresses ! k) (date_of date_since)))"
    and "fst (process_message_try date_since
               (fst (mailbox_fetch w k (sender_addresses ! k) (date_of date_since)) ! i)) = Inl e"
  shows "process_message date_since
           (fst (mailbox_fetch w k (sender_addresses ! k) (date_of date_since)) ! i)
         = (Inr None,
            snd (process_message_try date_since
                  (fst (mailbox_fetch w k (sender_addresses ! k) (date_of date_since)) ! i)) @
              [Log ERROR [Txt ''Error processing individual email: '', Txt e]])
       \<and> fst (extract_emails_from_inbox w email_address password sender_addresses)
         = fst (extract_emails_from_inbox (without_message k i w)
                  email_address password sender_addresses)"
proof -
  let ?f = "fst (mailbox_fetch w k (sender_addresses ! k) (date_of date_since)) ! i"
  have caught: "process_message date_since ?f
         = (Inr None,
            snd (process_message_try date_since ?f) @
              [Log ERROR [Txt ''Error processing individual email: '', Txt e]])"
    using assms(4) by (rule process_message_caught)
  then have none: "fst (process_message date_since ?f) = Inr None"
    by simp
  have "fst (fetch_senders (without_message k i w) date_since 0 sender_addresses)
      = fst (fetch_senders w date_since 0 sender_addresses)"
    by (rule fetch_senders_without) (use assms(3) none in simp)
  moreover have "now (without_message k i w) = now w"
    "mailbox_login (without_message k i w) = mailbox_login w"
    "mailbox_logout (without_message k i w) = mailbox_logout w"
    by (simp_all add: without_message_def)
  ultimately have "fst (extract_emails_from_inbox w email_address password sender_addresses)
         = fst (extract_emails_from_inbox (without_message k i w)
                  email_address password sender_addresses)"
    using assms(1) by (simp add: extract_fst split: option.splits)
  with caught show ?thesis by simp
qed

theorem failing_message_skipped_witness:
  "datetime_sub \<lparr>wall = now (world_of [fetched_broken, fetched_recent]), tzinfo = utc\<rparr>
      (timedelta_days 1) = Inr \<lparr>wall = noon - hours 24, tzinfo = utc\<rparr>
   \<and> fst (process_message_try \<lparr>wall = noon - hours 24, tzinfo = utc\<rparr> fetched_broken)
       = Inl ''unknown encoding: x-foo''
   \<and> logs_of (snd (process_message \<lparr>wall = noon - hours 24, tzinfo = utc\<rparr> fetched_broken))
       = [(DEBUG, [Txt ''Message date: '', Str_datetime \<lparr>wall = noon - hours 3, tzinfo = utc\<rparr>,
                   Txt '', Comparing with: '', Str_datetime \<lparr>wall = noon - hours 24, tzinfo = utc\<rparr>]),
          (ERROR, [Txt ''Error processing individual email: '', Txt ''unknown encoding: x-foo''])]
   \<and> fst (extract_emails_from_inbox (world_of [fetched_broken, fetched_recent])
            ''me@y.com'' ''secret'' [''a@x.com''])
       = Inr [record_recent\<lparr>summary := Some (Some ''A greeting.'')\<rparr>]
   \<and> fst (extract_emails_from_inbox (without_message 0 0 (world_of [fetched_broken, fetched_recent]))
            ''me@y.com'' ''secret'' [''a@x.com''])
       = Inr [record_recent\<lparr>summary := Some (Some ''A greeting.'')\<rparr>]"
proof -
  let ?w = "world_of [fetched_broken, fetched_recent]"
  let ?d = "\<lparr>wall = noon - hours 24, tzinfo = utc\<rparr>"
  have now: "now ?w = noon" and fetch: "mailbox_fetch ?w k s day = ([fetched_broken, fetched_recent], None)"
    for k s day
    by (simp_all add: world_of_def)
  have sub: "datetime_sub \<lparr>wall = now ?w, tzinfo = utc\<rparr> (timedelta_days 1) = Inr ?d"
    using sample_cutoff now by simp
  have tr: "process_message_try ?d fetched_broken
      = (Inl ''unknown encoding: x-foo'',
         [Log DEBUG [Txt ''Message date: '', Str_datetime \<lparr>wall = noon - hours 3, tzinfo = utc\<rparr>,
                     Txt '', Comparing with: '', Str_datetime \<lparr>wall = noon - hours 24, tzinfo = utc\<rparr>]])"
    by (simp add: process_message_try_def fetched_broken_def message_at_def io_bind_def
        io_pure_def logger_def replace_tzinfo_def datetime_ge_def utc_def hours_def noon_def
        text_or_html_def)
  have broken: "fst (process_message ?d fetched_broken) = Inr None"
    using process_message_caught [of ?d fetched_broken] tr by simp
  have run: "fst (extract_emails_from_inbox ?w ''me@y.com'' ''secret'' [''a@x.com''])
       = Inr [record_recent\<lparr>summary := Some (Some ''A greeting.'')\<rparr>]"
    by (simp add: extract_world_of kept_def broken process_fetched_recent)
  show ?thesis
    using failing_message_skipped [of ?w ?d 0 "[''a@x.com'']" 0 "''unknown encoding: x-foo''"
        "''me@y.com''" "''secret''"] sub tr run
    by (simp add: fetch)
qed

text \<open>
  C6. When the extraction returns records, \<open>/extract\<close> answers with the success shape:
  \<open>emails_found\<close> is the number of records extracted, \<open>emails_stored\<close> the number
  of inserts the store did not raise on, which is at most \<open>emails_found\<close>; and the
  inserts attempted are all the records, in order, whichever of them the store raised on.
\<close>

theorem store_loop_continues_after_failure:
  assumes "fst (extract_emails_from_inbox w email_address password sender_addresses) = Inr email_data"
    and "email_data \<noteq> []"
  shows "fst (extract_from_email w
               \<lparr>req_email_address = email_address, req_password = password,
                req_sender_addresses = sender_addresses\<rparr>)
         = Inr [(''message'', JStr ''Emails extracted and stored successfully''),
                (''emails_found'', JInt (length email_data)),
                (''emails_stored'',
                 JInt (length (filter (\<lambda>(k, r). supabase_insert w k r = None)
                                 (enumerate 0 email_data)))),
                (''senders_processed'', JList sender_addresses)]
       \<and> length (filter (\<lambda>(k, r). supabase_insert w k r = None) (enumerate 0 email_data))
           \<le> length email_data
       \<and> inserts_of (snd (extract_from_email w
               \<lparr>req_email_address = email_address, req_password = password,
                req_sender_addresses = sender_addresses\<rparr>))
         = email_data"
proof -
  have "length (filter (\<lambda>(k, r). supabase_insert w k r = None) (enumerate 0 email_data))
      \<le> length (enumerate 0 email_data)"
    by (rule length_filter_le)
  then have "length (filter (\<lambda>(k, r). supabase_insert w k r = None) (enumerate 0 email_data))
      \<le> length email_data"
    by simp
  then show ?thesis
    using assms by (simp add: extract_from_email_fst extract_from_email_inserts)
qed

theorem store_loop_continues_after_failure_witness:
  "fst (extract_emails_from_inbox (world_store_fails [fetched_recent, fetched_html])
          ''me@y.com'' ''secret'' [''a@x.com''])
     = Inr [record_recent\<lparr>summary := Some (Some ''A greeting.'')\<rparr>, record_html]
   \<and> supabase_insert (world_store_fails [fetched_recent, fetched_html]) 0
        (record_recent\<lparr>summary := Some (Some ''A greeting.'')\<rparr>) = Some ''duplicate key value''
   \<and> supabase_insert (world_store_fails [fetched_recent, fetched_html]) 1 record_html = None
   \<and> fst (extract_from_email (world_store_fails [fetched_recent, fetched_html])
            \<lparr>req_email_address = ''me@y.com'', req_password = ''secret'',
             req_sender_addresses = [''a@x.com'']\<rparr>)
       = Inr [(''message'', JStr ''Emails extracted and stored successfully''),
              (''emails_found'', JInt 2),
              (''emails_stored'', JInt 1),
              (''senders_processed'', JList [''a@x.com''])]
   \<and> inserts_of (snd (extract_from_email (world_store_fails [fetched_recent, fetched_html])
            \<lparr>req_email_address = ''me@y.com'', req_password = ''secret'',
             req_sender_addresses = [''a@x.com'']\<rparr>))
       = [record_recent\<lparr>summary := Some (Some ''A greeting.'')\<rparr>, record_html]"
proof -
  let ?w = "world_store_fails [fetched_recent, fetched_html]"
  have "fst (extract_emails_from_inbox ?w ''me@y.com'' ''secret'' [''a@x.com''])
     = Inr (kept \<lparr>wall = noon - hours 24, tzinfo = utc\<rparr> [fetched_recent, fetched_html])"
    by (rule extract_one_sender) (simp_all add: world_store_fails_def world_of_def)
  then have run: "fst (extract_emails_from_inbox ?w ''me@y.com'' ''secret'' [''a@x.com''])
     = Inr [record_recent\<lparr>summary := Some (Some ''A greeting.'')\<rparr>, record_html]"
    by (simp add: kept_def process_fetched_recent process_fetched_html)
  have ne: "[record_recent\<lparr>summary := Some (Some ''A greeting.'')\<rparr>, record_html] \<noteq> []"
    by simp
  have ins: "supabase_insert ?w 0 (record_recent\<lparr>summary := Some (Some ''A greeting.'')\<rparr>)
      = Some ''duplicate key value''"
    "supabase_insert ?w 1 record_html = None"
    by (simp_all add: world_store_fails_def record_recent_def record_html_def hours_def)
  have "enumerate 0 [record_recent\<lparr>summary := Some (Some ''A greeting.'')\<rparr>, record_html]
      = [(0, record_recent\<lparr>summary := Some (Some ''A greeting.'')\<rparr>), (1, record_html)]"
    by simp
  then show ?thesis
    using store_loop_continues_after_failure [OF run ne] run ins by simp
qed

text \<open>
  C7. When the extraction returns no record, as it does for an empty sender list
  whenever it returns, \<open>/extract\<close> answers with the message
  \<open>No emails found in the last 24 hours from specified senders\<close> and the sender list it was
  given; the response has no key \<open>emails_found\<close>, and no insert is attempted.
\<close>

theorem no_emails_found_response:
  assumes "fst (extract_emails_from_inbox w email_address password sender_addresses) = Inr email_data"
    and "email_data = [] \<or> sender_addresses = []"
  shows "\<exists>response.
           fst (extract_from_email w
                 \<lparr>req_email_address = email_address, req_password = password,
                  req_sender_addresses = sender_addresses\<rparr>) = Inr response
         \<and> response =
             [(''message'', JStr ''No emails found in the last 24 hours from specified senders''),
              (''senders_processed'', JList sender_addresses)]
         \<and> map_of response ''emails_found'' = None
         \<and> inserts_of (snd (extract_from_email w
                 \<lparr>req_email_address = email_address, req_password = password,
                  req_sender_addresses = sender_addresses\<rparr>)) = []"
proof -
  have "email_data = []"
  proof (cases "sender_addresses = []")
    case True
    then show ?thesis
      using fetch_senders_Inr [of w _ 0 sender_addresses email_data] extract_Inr [OF assms(1)]
      by simp
  next
    case False
    then show ?thesis using assms(2) by simp
  qed
  then show ?thesis
    using assms(1) by (simp add: extract_from_email_fst extract_from_email_inserts)
qed

theorem no_emails_found_response_witness:
  "fst (extract_emails_from_inbox (world_of [fetched_old]) ''me@y.com'' ''secret'' [''a@x.com''])
     = Inr []
   \<and> fst (extract_from_email (world_of [fetched_old])
            \<lparr>req_email_address = ''me@y.com'', req_password = ''secret'',
             req_sender_addresses = [''a@x.com'']\<rparr>)
       = Inr [(''message'', JStr ''No emails found in the last 24 hours from specified senders''),
              (''senders_processed'', JList [''a@x.com''])]
   \<and> inserts_of (snd (extract_from_email (world_of [fetched_old])
            \<lparr>req_email_address = ''me@y.com'', req_password = ''secret'',
             req_sender_addresses = [''a@x.com'']\<rparr>)) = []"
proof -
  have old: "fst (process_message \<lparr>wall = noon - hours 24, tzinfo = utc\<rparr> fetched_old) = Inr None"
    by (simp add: process_message_fst fetched_old_def message_at_def replace_tzinfo_def
        datetime_ge_def utc_def hours_def noon_def)
  have run: "fst (extract_emails_from_inbox (world_of [fetched_old]) ''me@y.com'' ''secret''
                [''a@x.com'']) = Inr []"
    by (simp add: extract_world_of kept_def old)
  show ?thesis
    using no_emails_found_response [OF run] run by simp
qed

text \<open>
  C8. When the query does not raise: on an empty table \<open>/emails\<close> answers with the one
  key \<open>message\<close>, \<open>No emails found in database\<close>; on a table with rows it answers with
  the rows as the store returns them for \<open>order('date.desc')\<close>, which are the rows of the
  table ordered by date, latest first, and with \<open>total_count\<close> the number of rows returned.
\<close>

theorem get_emails_listing:
  assumes "select_raises st = None"
  shows "(emails_table st = [] \<longrightarrow>
            fst (get_emails st) = Inr [(''message'', JStr ''No emails found in database'')])
       \<and> (emails_table st \<noteq> [] \<longrightarrow>
            (\<exists>emails.
               fst (get_emails st)
                 = Inr [(''emails'', JRows emails), (''total_count'', JInt (length emails))]
             \<and> emails = select_order_date_desc (emails_table st)
             \<and> mset emails = mset (emails_table st)
             \<and> sorted_wrt (\<lambda>a b. timestamptz (date b) \<le> timestamptz (date a)) emails))"
  using assms
  by (simp add: get_emails_fst mset_select_order sorted_select_order)

theorem get_emails_listing_witness:
  "fst (get_emails \<lparr>emails_table = [], select_raises = None\<rparr>)
     = Inr [(''message'', JStr ''No emails found in database'')]
   \<and> fst (get_emails \<lparr>emails_table = [record_recent, record_html, record_recent],
                       select_raises = None\<rparr>)
     = Inr [(''emails'', JRows [record_html, record_recent, record_recent]),
            (''total_count'', JInt 3)]"
proof -
  have s: "select_order_date_desc [record_recent, record_html, record_recent]
      = [record_html, record_recent, record_recent]"
    by (simp add: select_order_date_desc_def record_recent_def record_html_def timestamptz_def
        utc_def hours_def)
  show ?thesis
    using get_emails_listing [of "\<lparr>emails_table = [], select_raises = None\<rparr>"]
      get_emails_listing [of "\<lparr>emails_table = [record_recent, record_html, record_recent],
                       select_raises = None\<rparr>"] s
    by auto
qed

text \<open>
  C9, as amended. The password reaches the log records only through the answer of the
  IMAP server to the login: two requests that differ only in the password, and whose
  passwords the server answers alike, write the same sequence of log records.
\<close>

theorem password_reaches_logs_only_through_login:
  assumes "mailbox_login w ''imap.gmail.com'' email_address p1 ''INBOX''
         = mailbox_login w ''imap.gmail.com'' email_address p2 ''INBOX''"
  shows "logs_of (snd (extract_from_email w
            \<lparr>req_email_address = email_address, req_password = p1,
             req_sender_addresses = sender_addresses\<rparr>))
       = logs_of (snd (extract_from_email w
            \<lparr>req_email_address = email_address, req_password = p2,
             req_sender_addresses = sender_addresses\<rparr>))"
  using extract_same_login [OF assms, of sender_addresses]
  by (simp add: extract_from_email_snd logs_of_append)

theorem password_reaches_logs_only_through_login_witness:
  "mailbox_login (world_of [fetched_recent]) ''imap.gmail.com'' ''me@y.com'' ''guess'' ''INBOX''
     = mailbox_login (world_of [fetched_recent]) ''imap.gmail.com'' ''me@y.com'' ''hunter2'' ''INBOX''
   \<and> logs_of (snd (extract_from_email (world_of [fetched_recent])
            \<lparr>req_email_address = ''me@y.com'', req_password = ''guess'',
             req_sender_addresses = [''a@x.com'']\<rparr>))
     = logs_of (snd (extract_from_email (world_of [fetched_recent])
            \<lparr>req_email_address = ''me@y.com'', req_password = ''hunter2'',
             req_sender_addresses = [''a@x.com'']\<rparr>))"
proof -
  have h: "mailbox_login (world_of [fetched_recent]) ''imap.gmail.com'' ''me@y.com'' ''guess'' ''INBOX''
     = mailbox_login (world_of [fetched_recent]) ''imap.gmail.com'' ''me@y.com'' ''hunter2'' ''INBOX''"
    by (simp add: world_of_def)
  show ?thesis
    using h password_reaches_logs_only_through_login [OF h, of "[''a@x.com'']"] by simp
qed

text \<open>
  C9, as stated, fails: the server accepts one password and rejects the other, and the
  log records of the two requests differ.
\<close>

theorem password_changes_logs_counterexample:
  "logs_of (snd (extract_from_email (world_of [])
      \<lparr>req_email_address = ''me@y.com'', req_password = ''secret'', req_sender_addresses = []\<rparr>))
   \<noteq> logs_of (snd (extract_from_email (world_of [])
      \<lparr>req_email_address = ''me@y.com'', req_password = ''guess'', req_sender_addresses = []\<rparr>))"
proof -
  have now: "now (world_of []) = noon"
    and lo: "mailbox_logout (world_of []) = None"
    and ok: "mailbox_login (world_of []) ''imap.gmail.com'' ''me@y.com'' ''secret'' ''INBOX'' = None"
    and no: "mailbox_login (world_of []) ''imap.gmail.com'' ''me@y.com'' ''guess'' ''INBOX''
      = Some ''[AUTHENTICATIONFAILED] Invalid credentials (Failure)''"
    by (simp_all add: world_of_def)
  have a: "logs_of (snd (extract_from_email (world_of [])
      \<lparr>req_email_address = ''me@y.com'', req_password = ''secret'', req_sender_addresses = []\<rparr>))
    = [(INFO, [Txt ''Starting email extraction for: '', Txt ''me@y.com'']),
       (INFO, [Txt ''Attempting to connect to Gmail IMAP for: '', Txt ''me@y.com'']),
       (INFO, [Txt ''Successfully connected to Gmail'']),
       (INFO, [Txt ''Successfully extracted '', Num 0, Txt '' emails'']),
       (WARNING, [Txt ''No emails found in the last 24 hours from specified senders''])]"
    by (simp add: extract_from_email_snd extract_snd extract_fst now lo ok sample_cutoff
        io_return_def logs_of_append)
  have b: "logs_of (snd (extract_from_email (world_of [])
      \<lparr>req_email_address = ''me@y.com'', req_password = ''guess'', req_sender_addresses = []\<rparr>))
    = [(INFO, [Txt ''Starting email extraction for: '', Txt ''me@y.com'']),
       (INFO, [Txt ''Attempting to connect to Gmail IMAP for: '', Txt ''me@y.com'']),
       (ERROR, [Txt ''Failed to fetch emails: '',
                Txt ''[AUTHENTICATIONFAILED] Invalid credentials (Failure)'']),
       (ERROR, [Txt ''Error in extract_from_email: '',
                Str_exc (fetch_failed ''me@y.com''
                  ''[AUTHENTICATIONFAILED] Invalid credentials (Failure)'')])]"
    by (simp add: extract_from_email_snd extract_snd extract_fst now lo no sample_cutoff
        io_return_def logs_of_append)
  show ?thesis
    unfolding a b by simp
qed

text \<open>
  C10. In a run of \<open>extract_emails_from_inbox\<close> that returns, the clock is read once
  before the login and the cutoff is that reading minus 24 hours; every search of the
  session carries the calendar day of this cutoff; the records returned are those the loop
  body keeps with this one cutoff, for every message of every sender; and a world that
  differs only in the clock readings while the messages are processed gives the same
  records, up to \<open>extracted_at\<close>.
\<close>

theorem cutoff_fixed_for_session:
  assumes "fst (extract_emails_from_inbox w email_address password sender_addresses) = Inr email_data"
    and "worlds_agree (\<lambda>f f'. message f' = message f \<and> groq_at f' = groq_at f) w w'"
  shows "\<exists>date_since.
           datetime_sub \<lparr>wall = now w, tzinfo = utc\<rparr> (timedelta_days 1) = Inr date_since
         \<and> take 3 (snd (extract_emails_from_inbox w email_address password sender_addresses))
             = [Log INFO [Txt ''Attempting to connect to Gmail IMAP for: '', Txt email_address],
                Datetime_now,
                Mailbox_login ''imap.gmail.com'' email_address password ''INBOX'']
         \<and> fetches_of (snd (extract_emails_from_inbox w email_address password sender_addresses))
             = map (\<lambda>sender. (sender, date_of date_since)) sender_addresses
         \<and> email_data
             = concat (map (\<lambda>k. kept date_since
                               (fst (mailbox_fetch w k (sender_addresses ! k) (date_of date_since))))
                         [0..<length sender_addresses])
         \<and> map_sum id (map (\<lambda>r. r\<lparr>extracted_at := x\<rparr>))
               (fst (extract_emails_from_inbox w' email_address password sender_addresses))
             = Inr (map (\<lambda>r. r\<lparr>extracted_at := x\<rparr>) email_data)"
proof -
  let ?d = "\<lparr>wall = now w - timedelta_days 1, tzinfo = utc\<rparr>"
  note ex = extract_Inr [OF assms(1)]
  have sub: "datetime_sub \<lparr>wall = now w, tzinfo = utc\<rparr> (timedelta_days 1) = Inr ?d"
    using ex by simp
  have fs: "fst (fetch_senders w ?d 0 sender_addresses) = Inr email_data"
    using ex by simp
  have pre: "take 3 (snd (extract_emails_from_inbox w email_address password sender_addresses))
             = [Log INFO [Txt ''Attempting to connect to Gmail IMAP for: '', Txt email_address],
                Datetime_now,
                Mailbox_login ''imap.gmail.com'' email_address password ''INBOX'']"
    by (simp add: extract_snd sub)
  have fe: "fetches_of (snd (extract_emails_from_inbox w email_address password sender_addresses))
             = map (\<lambda>sender. (sender, date_of ?d)) sender_addresses"
    using ex fetches_of_fetch_senders [OF fs]
    by (simp add: extract_snd fetches_of_append)
  have ke: "email_data
             = concat (map (\<lambda>k. kept ?d (fst (mailbox_fetch w k (sender_addresses ! k) (date_of ?d))))
                         [0..<length sender_addresses])"
    using fetch_senders_Inr [OF fs] by simp
  have "map_sum id (map (\<lambda>r. r\<lparr>extracted_at := x\<rparr>))
               (fst (extract_emails_from_inbox w' email_address password sender_addresses))
      = map_sum id (map (\<lambda>r. r\<lparr>extracted_at := x\<rparr>))
               (fst (extract_emails_from_inbox w email_address password sender_addresses))"
    by (rule extract_agree [OF _ assms(2)]) (rule process_message_agree_clock, simp_all)
  then have ag: "map_sum id (map (\<lambda>r. r\<lparr>extracted_at := x\<rparr>))
               (fst (extract_emails_from_inbox w' email_address password sender_addresses))
             = Inr (map (\<lambda>r. r\<lparr>extracted_at := x\<rparr>) email_data)"
    by (simp add: assms(1))
  from sub pre fe ke ag show ?thesis by blast
qed

theorem cutoff_fixed_for_session_witness:
  "fst (extract_emails_from_inbox (world_of [fetched_old, fetched_recent])
          ''me@y.com'' ''secret'' [''a@x.com'', ''b@x.com''])
     = Inr [record_recent\<lparr>summary := Some (Some ''A greeting.'')\<rparr>,
            record_recent\<lparr>summary := Some (Some ''A greeting.'')\<rparr>]
   \<and> worlds_agree (\<lambda>f f'. message f' = message f \<and> groq_at f' = groq_at f)
       (world_of [fetched_old, fetched_recent])
       (world_of [fetched_old\<lparr>now_at := noon + hours 30\<rparr>, fetched_recent\<lparr>now_at := noon + hours 31\<rparr>])
   \<and> fetches_of (snd (extract_emails_from_inbox (world_of [fetched_old, fetched_recent])
          ''me@y.com'' ''secret'' [''a@x.com'', ''b@x.com'']))
       = [(''a@x.com'', 739922), (''b@x.com'', 739922)]
   \<and> map_sum id (map (\<lambda>r. r\<lparr>extracted_at := \<lparr>wall = 0, tzinfo = None\<rparr>\<rparr>))
        (fst (extract_emails_from_inbox
               (world_of [fetched_old\<lparr>now_at := noon + hours 30\<rparr>,
                          fetched_recent\<lparr>now_at := noon + hours 31\<rparr>])
               ''me@y.com'' ''secret'' [''a@x.com'', ''b@x.com'']))
       = Inr (map (\<lambda>r. r\<lparr>extracted_at := \<lparr>wall = 0, tzinfo = None\<rparr>\<rparr>)
               [record_recent\<lparr>summary := Some (Some ''A greeting.'')\<rparr>,
                record_recent\<lparr>summary := Some (Some ''A greeting.'')\<rparr>])"
proof -
  have old: "fst (process_message \<lparr>wall = noon - hours 24, tzinfo = utc\<rparr> fetched_old) = Inr None"
    by (simp add: process_message_fst fetched_old_def message_at_def replace_tzinfo_def
        datetime_ge_def utc_def hours_def noon_def)
  have run: "fst (extract_emails_from_inbox (world_of [fetched_old, fetched_recent])
          ''me@y.com'' ''secret'' [''a@x.com'', ''b@x.com''])
     = Inr [record_recent\<lparr>summary := Some (Some ''A greeting.'')\<rparr>,
            record_recent\<lparr>summary := Some (Some ''A greeting.'')\<rparr>]"
    using sample_cutoff old process_fetched_recent
    by (simp add: extract_fst world_of_def io_simps fetch_sender_fst kept_def)
  have agree: "worlds_agree (\<lambda>f f'. message f' = message f \<and> groq_at f' = groq_at f)
       (world_of [fetched_old, fetched_recent])
       (world_of [fetched_old\<lparr>now_at := noon + hours 30\<rparr>, fetched_recent\<lparr>now_at := noon + hours 31\<rparr>])"
    by (simp add: worlds_agree_def world_of_def)
  have day: "date_of \<lparr>wall = noon - hours 24, tzinfo = utc\<rparr> = 739922"
    by (simp add: date_of_def timedelta_days_def noon_def hours_def)
  have now: "now (world_of [fetched_old, fetched_recent]) = noon"
    by (simp add: world_of_def)
  obtain d where
    d: "datetime_sub \<lparr>wall = now (world_of [fetched_old, fetched_recent]), tzinfo = utc\<rparr>
          (timedelta_days 1) = Inr d"
    and fe: "fetches_of (snd (extract_emails_from_inbox (world_of [fetched_old, fetched_recent])
          ''me@y.com'' ''secret'' [''a@x.com'', ''b@x.com'']))
       = map (\<lambda>sender. (sender, date_of d)) [''a@x.com'', ''b@x.com'']"
    and ag: "map_sum id (map (\<lambda>r. r\<lparr>extracted_at := \<lparr>wall = 0, tzinfo = None\<rparr>\<rparr>))
        (fst (extract_emails_from_inbox
               (world_of [fetched_old\<lparr>now_at := noon + hours 30\<rparr>,
                          fetched_recent\<lparr>now_at := noon + hours 31\<rparr>])
               ''me@y.com'' ''secret'' [''a@x.com'', ''b@x.com'']))
       = Inr (map (\<lambda>r. r\<lparr>extracted_at := \<lparr>wall = 0, tzinfo = None\<rparr>\<rparr>)
               [record_recent\<lparr>summary := Some (Some ''A greeting.'')\<rparr>,
                record_recent\<lparr>summary := Some (Some ''A greeting.'')\<rparr>])"
    using cutoff_fixed_for_session [OF run agree, of "\<lparr>wall = 0, tzinfo = None\<rparr>"] by blast
  have "d = \<lparr>wall = noon - hours 24, tzinfo = utc\<rparr>"
    using d sample_cutoff now by simp
  then show ?thesis
    using run agree fe ag day by simp
qed

end
